theory Spec2Isabelle
  imports Main "HOL-Library.Word" "HOL-Library.Sublist"
begin

section \<open>Data model\<close>

text \<open>
  A raw pointer (\<^verbatim>\<open>void*\<close>, \<^verbatim>\<open>EXPRESSION*\<close>) is an address; \<open>0\<close> is
  \<^verbatim>\<open>nullptr\<close>.
\<close>

type_synonym addr = nat

abbreviation nullptr :: addr where
  "nullptr \<equiv> 0"

text \<open>
  \<^verbatim>\<open>class Problem : public std::exception\<close>: the only exception class of the
  library. Every \<^verbatim>\<open>throw\<close> of the source is a \<open>Problem\<close> carrying its message.
\<close>

datatype Problem = Problem (message: string)

text \<open>
  The type codes of \<^verbatim>\<open>clips.h\<close> wrapped by \<^verbatim>\<open>enum class DataObjectType\<close>.
  The numeric values of the macros are not part of the wrapper; \<open>OTHER_TYPE\<close> stands
  for every code that is not one of the nine primitive tags or the three union tags
  (the codes of function calls, for instance). \<^verbatim>\<open>installArgument(uint16 type, ...)\<close>
  and the cast in \<^verbatim>\<open>invoke\<close> move between the raw code and this type.
\<close>

datatype DataObjectType =
    FLOAT
  | INTEGER
  | SYMBOL
  | STRING
  | MULTIFIELD
  | EXTERNAL_ADDRESS
  | FACT_ADDRESS
  | INSTANCE_ADDRESS
  | INSTANCE_NAME
  | INTEGER_OR_FLOAT
  | SYMBOL_OR_STRING
  | INSTANCE_OR_INSTANCE_NAME
  | OTHER_TYPE nat

text \<open>
  \<^verbatim>\<open>struct expr\<close> (\<^verbatim>\<open>EXPRESSION\<close>, \<^verbatim>\<open>FUNCTION_REFERENCE\<close>): the four fields the
  wrapper reads and writes.
\<close>

record expr =
  expr_type :: DataObjectType
  expr_value :: addr
  argList :: addr
  nextArg :: addr

text \<open>\<^verbatim>\<open>DATA_OBJECT\<close>: tag, payload pointer and the inclusive multifield range.\<close>

record DataObject =
  dobj_type :: DataObjectType
  dobj_value :: addr
  dobj_begin :: int
  dobj_end :: int

text \<open>\<^verbatim>\<open>struct externalAddressHashNode\<close>: the wrapped host pointer and its type id.\<close>

record externalAddressHashNode =
  externalAddress :: addr
  ea_type :: int

text \<open>Floating-point payloads are only carried around, never computed with.\<close>

typedecl cdouble

section \<open>The engine interface\<close>

text \<open>
  The primitives and accessor macros of \<^verbatim>\<open>clips.h\<close> that the wrapper calls. The
  header and the engine are not part of the library's sources, so they are
  parameters of every definition below: nothing is assumed about them beyond their
  signatures. Each primitive takes the raw engine pointer first, as in C.
  \<^item> \<open>GetFunctionReference\<close> takes the old contents of the reference it is given and
    returns whether it answered \<^verbatim>\<open>TRUE\<close>, with the contents it left there.
  \<^item> \<open>EvaluateExpression\<close> reads the expression memory and the root expression, and
    returns whether it answered \<^verbatim>\<open>TRUE\<close> (an evaluation error), with the result
    object it wrote.
  \<^item> \<open>DOPToString\<close>, \<open>DOPToInteger\<close> and \<open>DOPToDouble\<close> are the accessor macros,
    as functions of the payload pointer they dereference; \<open>externalAddressNode\<close> is
    the reading of a payload pointer as a \<^verbatim>\<open>struct externalAddressHashNode*\<close>.
\<close>

record clips =
  EnvFunctionCall :: "addr \<Rightarrow> string \<Rightarrow> string \<Rightarrow> int \<times> DataObject"
  EnvLoad :: "addr \<Rightarrow> string \<Rightarrow> int"
  EnvAddSymbol :: "addr \<Rightarrow> string \<Rightarrow> addr"
  EnvAddLong :: "addr \<Rightarrow> 64 word \<Rightarrow> addr"
  EnvAddDouble :: "addr \<Rightarrow> cdouble \<Rightarrow> addr"
  EnvAddExternalAddress :: "addr \<Rightarrow> addr \<Rightarrow> int \<Rightarrow> addr"
  EnvTrueSymbol :: "addr \<Rightarrow> addr"
  EnvFalseSymbol :: "addr \<Rightarrow> addr"
  GetFunctionReference :: "addr \<Rightarrow> string \<Rightarrow> expr \<Rightarrow> bool \<times> expr"
  EvaluateExpression :: "addr \<Rightarrow> (addr \<rightharpoonup> expr) \<Rightarrow> expr \<Rightarrow> bool \<times> DataObject"
  DOPToString :: "addr \<Rightarrow> string"
  DOPToInteger :: "addr \<Rightarrow> 32 word"
  DOPToDouble :: "addr \<Rightarrow> cdouble"
  externalAddressNode :: "addr \<Rightarrow> externalAddressHashNode"

text \<open>
  What the C++ library leaves to the implementation: the text of a \<^verbatim>\<open>double\<close> and of
  a \<^verbatim>\<open>void*\<close> written to a stream.
\<close>

record cxx =
  format_double :: "cdouble \<Rightarrow> string"
  format_pointer :: "addr \<Rightarrow> string"

text \<open>
  \<^verbatim>\<open>std::string::c_str()\<close>: what a C function reads of the string ends before the
  first NUL character.
\<close>

definition c_str :: "string \<Rightarrow> string" where
  "c_str s = takeWhile (\<lambda>ch. ch \<noteq> CHR 0x00) s"

section \<open>Environment\<close>

text \<open>
  \<^verbatim>\<open>class Environment\<close>: the raw engine pointer and the ownership flag. The
  constructor from a raw pointer builds a borrowed wrapper (\<open>reclaim = False\<close>).
\<close>

record Environment =
  reclaim :: bool
  env :: addr

definition borrowed :: "addr \<Rightarrow> Environment" where
  "borrowed theEnv = \<lparr>reclaim = False, env = theEnv\<rparr>"

definition getRawEnvironment :: "Environment \<Rightarrow> addr" where
  "getRawEnvironment e = env e"

text \<open>
  \<^verbatim>\<open>Environment::funcall(functionName, args, obj)\<close>. The engine writes the result
  object through \<open>obj\<close> whatever the status; the second component is what \<open>obj\<close>
  holds afterwards.
\<close>

definition funcall :: "clips \<Rightarrow> Environment \<Rightarrow> string \<Rightarrow> string \<Rightarrow> (Problem + unit) \<times> DataObject" where
  "funcall c e functionName args =
     (case EnvFunctionCall c (env e) (c_str functionName) (c_str args) of
        (status, obj) \<Rightarrow>
          if status \<noteq> 0
          then (Inl (Problem (''Function call of ('' @ functionName @ '' '' @ args @ '') failed!'')), obj)
          else (Inr (), obj))"

text \<open>The overloads without a result object or without arguments delegate to it.\<close>

definition funcall_discard :: "clips \<Rightarrow> Environment \<Rightarrow> string \<Rightarrow> string \<Rightarrow> Problem + unit" where
  "funcall_discard c e functionName args = fst (funcall c e functionName args)"

definition funcall_noargs_discard :: "clips \<Rightarrow> Environment \<Rightarrow> string \<Rightarrow> Problem + unit" where
  "funcall_noargs_discard c e functionName = funcall_discard c e functionName ''''"

definition funcall_noargs :: "clips \<Rightarrow> Environment \<Rightarrow> string \<Rightarrow> (Problem + unit) \<times> DataObject" where
  "funcall_noargs c e functionName = funcall c e functionName ''''"

text \<open>\<^verbatim>\<open>Environment::loadFile\<close>: the switch over the result of \<^verbatim>\<open>EnvLoad\<close>.\<close>

definition loadFile :: "clips \<Rightarrow> Environment \<Rightarrow> string \<Rightarrow> Problem + unit" where
  "loadFile c e path =
     (let r = EnvLoad c (env e) (c_str path) in
      if r = - 1 then Inl (Problem (''Unable to parse file: '' @ path))
      else if r = 0 then Inl (Problem (''Unable to load file: '' @ path))
      else Inr ())"

text \<open>\<^verbatim>\<open>extractData(Environment*, DataObjectPtr, bool&)\<close>.\<close>

definition extractData_bool :: "clips \<Rightarrow> Environment \<Rightarrow> DataObject \<Rightarrow> bool" where
  "extractData_bool c e dobj =
     (dobj_value dobj \<noteq> EnvFalseSymbol c (getRawEnvironment e) \<and> dobj_type dobj = SYMBOL)"

text \<open>\<^verbatim>\<open>funcall(functionName, args, bool& ret)\<close>: call, then extract.\<close>

definition funcall_bool :: "clips \<Rightarrow> Environment \<Rightarrow> string \<Rightarrow> string \<Rightarrow> Problem + bool" where
  "funcall_bool c e functionName args =
     (case funcall c e functionName args of
        (Inl p, dat) \<Rightarrow> Inl p
      | (Inr u, dat) \<Rightarrow> Inr (extractData_bool c e dat))"

section \<open>ExternalAddressCache\<close>

text \<open>
  \<^verbatim>\<open>template<typename T> std::map<void*, int> ExternalAddressCache<T>::_cache\<close>: one
  map per host type \<open>'t\<close>, from raw engine pointers to ids. The family of all these
  static maps is one function of the host type.
\<close>

type_synonym 't cache = "'t \<Rightarrow> (addr \<rightharpoonup> int)"

text \<open>
  \<^verbatim>\<open>std::map::emplace\<close> inserts only where the key has no element yet; an existing
  element is kept.
\<close>

definition emplace :: "('k \<rightharpoonup> 'v) \<Rightarrow> 'k \<Rightarrow> 'v \<Rightarrow> ('k \<rightharpoonup> 'v)" where
  "emplace m k v = (case m k of None \<Rightarrow> m(k \<mapsto> v) | Some old \<Rightarrow> m)"

text \<open>The registry of a process in which nothing has been registered yet.\<close>

definition no_registrations :: "'t cache" where
  "no_registrations = (\<lambda>T. Map.empty)"

text \<open>The private overloads on the raw pointer.\<close>

definition getExternalAddressId_raw :: "'t cache \<Rightarrow> 't \<Rightarrow> addr \<Rightarrow> Problem + int" where
  "getExternalAddressId_raw cache T p =
     (case cache T p of
        Some found \<Rightarrow> Inr found
      | None \<Rightarrow> Inl (Problem ''Attempted to get the external address index of something not registered from using an unregistered environment!''))"

definition registerExternalAddressId_raw :: "'t cache \<Rightarrow> 't \<Rightarrow> addr \<Rightarrow> int \<Rightarrow> 't cache" where
  "registerExternalAddressId_raw cache T p result = cache(T := emplace (cache T) p result)"

text \<open>The public overloads on the wrapper go through \<^verbatim>\<open>getRawEnvironment\<close>.\<close>

definition getExternalAddressId :: "'t cache \<Rightarrow> 't \<Rightarrow> Environment \<Rightarrow> Problem + int" where
  "getExternalAddressId cache T e = getExternalAddressId_raw cache T (getRawEnvironment e)"

definition registerExternalAddressId :: "'t cache \<Rightarrow> 't \<Rightarrow> Environment \<Rightarrow> int \<Rightarrow> 't cache" where
  "registerExternalAddressId cache T e result =
     registerExternalAddressId_raw cache T (getRawEnvironment e) result"

text \<open>
  \<^verbatim>\<open>Environment::externalAddressIsOfType<T>\<close> and
  \<^verbatim>\<open>Environment::fromExternalAddress<T>\<close>. The lookup of the id may throw, and
  its exception passes through both. \<open>typeid_name\<close> is \<^verbatim>\<open>typeid(T).name()\<close>.
\<close>

definition externalAddressIsOfType :: "clips \<Rightarrow> 't cache \<Rightarrow> 't \<Rightarrow> Environment \<Rightarrow> DataObject \<Rightarrow> Problem + bool" where
  "externalAddressIsOfType c cache T e ptr =
     (case getExternalAddressId cache T e of
        Inl p \<Rightarrow> Inl p
      | Inr i \<Rightarrow> Inr (ea_type (externalAddressNode c (dobj_value ptr)) = i))"

definition fromExternalAddress ::
  "clips \<Rightarrow> ('t \<Rightarrow> string) \<Rightarrow> 't cache \<Rightarrow> 't \<Rightarrow> Environment \<Rightarrow> DataObject \<Rightarrow> Problem + addr" where
  "fromExternalAddress c typeid_name cache T e ptr =
     (case externalAddressIsOfType c cache T e ptr of
        Inl p \<Rightarrow> Inl p
      | Inr True \<Rightarrow> Inr (externalAddress (externalAddressNode c (dobj_value ptr)))
      | Inr False \<Rightarrow>
          Inl (Problem (''Attempted to cast external address to '' @ typeid_name T
                        @ '' when it is not tagged as such!'')))"

section \<open>Expression memory\<close>

text \<open>
  The engine's expression memory as the wrapper sees it: the expression nodes that
  are allocated, the next address the allocator hands out, and the record of what the
  memory primitives did, in order. \<open>DeinstalledReference\<close> is the release of a root
  expression that is not a node of this memory (the builder's own \<^verbatim>\<open>_ref\<close> member).
\<close>

datatype event =
    Installed addr
  | Deinstalled addr
  | DeinstalledReference
  | Reclaimed addr
  | Evaluated

record exprmem =
  nodes :: "addr \<rightharpoonup> expr"
  brk :: addr
  events :: "event list"

text \<open>
  Modelled from the spec: the engine primitives \<^verbatim>\<open>GenConstant\<close>,
  \<^verbatim>\<open>ExpressionInstall\<close>, \<^verbatim>\<open>ExpressionDeinstall\<close> and \<^verbatim>\<open>ReturnExpression\<close> are
  not among the library's sources. \<^verbatim>\<open>GenConstant\<close> allocates one expression node with
  the given type and value and no argument and no successor. Installing and
  deinstalling an expression registers and unregisters the expression and everything
  below it: each node, the nodes of its argument list, then its successors.
  Reclaiming an expression list frees the same nodes, the arguments of a node before
  the node itself. A walk that meets a pointer to no node, or that does not end, has
  no result (\<open>None\<close>).
\<close>

definition GenConstant :: "DataObjectType \<Rightarrow> addr \<Rightarrow> exprmem \<Rightarrow> addr \<times> exprmem" where
  "GenConstant t v m =
     (brk m,
      m\<lparr>nodes := (nodes m)(brk m \<mapsto> \<lparr>expr_type = t, expr_value = v, argList = nullptr, nextArg = nullptr\<rparr>),
        brk := Suc (brk m)\<rparr>)"

partial_function (option) install_order :: "(addr \<rightharpoonup> expr) \<Rightarrow> addr \<Rightarrow> addr list option" where
  "install_order h p =
     (if p = nullptr then Some []
      else case h p of
             None \<Rightarrow> None
           | Some n \<Rightarrow>
               Option.bind (install_order h (argList n)) (\<lambda>as.
               Option.bind (install_order h (nextArg n)) (\<lambda>ns.
               Some (p # as @ ns))))"

partial_function (option) reclaim_order :: "(addr \<rightharpoonup> expr) \<Rightarrow> addr \<Rightarrow> addr list option" where
  "reclaim_order h p =
     (if p = nullptr then Some []
      else case h p of
             None \<Rightarrow> None
           | Some n \<Rightarrow>
               Option.bind (reclaim_order h (argList n)) (\<lambda>as.
               Option.bind (reclaim_order h (nextArg n)) (\<lambda>ns.
               Some (as @ p # ns))))"

declare install_order.simps [code]

declare reclaim_order.simps [code]

definition ExpressionInstall :: "addr \<Rightarrow> exprmem \<Rightarrow> exprmem option" where
  "ExpressionInstall p m =
     map_option (\<lambda>ps. m\<lparr>events := events m @ map Installed ps\<rparr>) (install_order (nodes m) p)"

text \<open>
  The only expression the wrapper deinstalls is the function reference, which it
  holds itself; the primitive is given its contents.
\<close>

definition ExpressionDeinstall :: "expr \<Rightarrow> exprmem \<Rightarrow> exprmem option" where
  "ExpressionDeinstall r m =
     Option.bind (install_order (nodes m) (argList r)) (\<lambda>as.
     Option.bind (install_order (nodes m) (nextArg r)) (\<lambda>ns.
     Some (m\<lparr>events := events m @ DeinstalledReference # map Deinstalled (as @ ns)\<rparr>)))"

definition ReturnExpression :: "addr \<Rightarrow> exprmem \<Rightarrow> exprmem option" where
  "ReturnExpression p m =
     map_option (\<lambda>ps. m\<lparr>nodes := (\<lambda>q. if q \<in> set ps then None else nodes m q),
                        events := events m @ map Reclaimed ps\<rparr>)
       (reclaim_order (nodes m) p)"

subsection \<open>The wrappers of \<^verbatim>\<open>Environment\<close> over these primitives\<close>

definition installExpression :: "addr \<Rightarrow> exprmem \<Rightarrow> exprmem option" where
  "installExpression expr m = ExpressionInstall expr m"

definition deinstallExpression :: "expr \<Rightarrow> exprmem \<Rightarrow> exprmem option" where
  "deinstallExpression expr m = ExpressionDeinstall expr m"

definition reclaimExpressionList :: "addr \<Rightarrow> exprmem \<Rightarrow> exprmem option" where
  "reclaimExpressionList expr m = ReturnExpression expr m"

definition generateConstantExpression :: "DataObjectType \<Rightarrow> addr \<Rightarrow> exprmem \<Rightarrow> addr \<times> exprmem" where
  "generateConstantExpression t v m = GenConstant t v m"

text \<open>\<^verbatim>\<open>GetFunctionReference(env, name.c_str(), ref) == TRUE\<close>, and what \<open>ref\<close> holds then.\<close>

definition generateFunctionExpression :: "clips \<Rightarrow> Environment \<Rightarrow> string \<Rightarrow> expr \<Rightarrow> bool \<times> expr" where
  "generateFunctionExpression c e name ref = GetFunctionReference c (env e) (c_str name) ref"

text \<open>
  \<^verbatim>\<open>EvaluateExpression(env, expr, ret) != TRUE\<close>: true when there was no evaluation
  error. The evaluation is recorded in the memory's events.
\<close>

definition evaluateExpression :: "clips \<Rightarrow> Environment \<Rightarrow> expr \<Rightarrow> exprmem \<Rightarrow> bool \<times> DataObject \<times> exprmem" where
  "evaluateExpression c e expr m =
     (case EvaluateExpression c (env e) (nodes m) expr of
        (err, ret) \<Rightarrow> (\<not> err, ret, m\<lparr>events := events m @ [Evaluated]\<rparr>))"

definition addSymbol :: "clips \<Rightarrow> Environment \<Rightarrow> string \<Rightarrow> addr" where
  "addSymbol c e symbol = EnvAddSymbol c (env e) symbol"

definition addNumber_int64 :: "clips \<Rightarrow> Environment \<Rightarrow> 64 word \<Rightarrow> addr" where
  "addNumber_int64 c e number = EnvAddLong c (env e) number"

definition addNumber_int32 :: "clips \<Rightarrow> Environment \<Rightarrow> 32 word \<Rightarrow> addr" where
  "addNumber_int32 c e number = EnvAddLong c (env e) (scast number)"

definition addNumber_double :: "clips \<Rightarrow> Environment \<Rightarrow> cdouble \<Rightarrow> addr" where
  "addNumber_double c e number = EnvAddDouble c (env e) number"

section \<open>FunctionBuilder\<close>

text \<open>
  \<^verbatim>\<open>class FunctionBuilder\<close>. The wrapper it points to is held by value: the builder
  only reads it.
\<close>

record FunctionBuilder =
  fb_function :: string
  fb_env :: Environment
  fb_ref :: expr
  curr :: addr
  functionReferenceSet :: bool

text \<open>
  The constructor initialises \<^verbatim>\<open>env\<close>; \<^verbatim>\<open>curr\<close> and \<^verbatim>\<open>functionReferenceSet\<close> have
  default member initialisers and \<^verbatim>\<open>_function\<close> is an empty string. \<^verbatim>\<open>_ref\<close> is a
  plain C struct without an initialiser: it holds whatever its storage held before,
  here \<open>storage\<close>.
\<close>

definition FunctionBuilder :: "Environment \<Rightarrow> expr \<Rightarrow> FunctionBuilder" where
  "FunctionBuilder e storage =
     \<lparr>fb_function = [], fb_env = e, fb_ref = storage, curr = nullptr, functionReferenceSet = False\<rparr>"

text \<open>
  The methods run on the builder and the expression memory. Their result is \<open>None\<close>
  when the source dereferences a pointer to no node or does not return; otherwise it
  is the exception thrown (\<open>Inl\<close>) or the value returned (\<open>Inr\<close>), with the builder and
  the memory as the call leaves them.
\<close>

type_synonym 'a fb_result = "((Problem + 'a) \<times> FunctionBuilder \<times> exprmem) option"

text \<open>
  The destructor. The wrapper pointer it also clears is not modelled as a pointer;
  nothing reads the builder afterwards.
\<close>

definition destroy_FunctionBuilder :: "FunctionBuilder \<times> exprmem \<Rightarrow> (FunctionBuilder \<times> exprmem) option" where
  "destroy_FunctionBuilder s =
     (case s of (b, m) \<Rightarrow>
        Option.bind (deinstallExpression (fb_ref b) m) (\<lambda>m1.
        Option.bind (reclaimExpressionList (argList (fb_ref b)) m1) (\<lambda>m2.
        Some (b\<lparr>fb_ref := (fb_ref b)\<lparr>argList := nullptr\<rparr>, curr := nullptr\<rparr>, m2))))"

definition setFunctionReference :: "clips \<Rightarrow> string \<Rightarrow> FunctionBuilder \<times> exprmem \<Rightarrow> unit fb_result" where
  "setFunctionReference c func s =
     (case s of (b, m) \<Rightarrow>
        (case generateFunctionExpression c (fb_env b) func (fb_ref b) of
           (found, ref) \<Rightarrow>
             if \<not> found
             then Some (Inl (Problem (''Function '' @ func @ '' does not exist!!!!'')),
                        b\<lparr>fb_ref := ref\<rparr>, m)
             else Some (Inr (),
                        b\<lparr>fb_ref := ref, fb_function := func, functionReferenceSet := True\<rparr>, m)))"

text \<open>
  \<^verbatim>\<open>installArgument(uint16 type, void* value)\<close>; the overload on \<^verbatim>\<open>DataObjectType\<close>
  casts and calls it. \<^verbatim>\<open>curr->nextArg = tmp\<close> writes through \<^verbatim>\<open>curr\<close>.
\<close>

definition installArgument :: "DataObjectType \<Rightarrow> addr \<Rightarrow> FunctionBuilder \<times> exprmem \<Rightarrow> unit fb_result" where
  "installArgument t v s =
     (case s of (b, m) \<Rightarrow>
        if functionReferenceSet b then
          (case generateConstantExpression t v m of
             (tmp, m1) \<Rightarrow>
               (case installExpression tmp m1 of
                  None \<Rightarrow> None
                | Some m2 \<Rightarrow>
                    if argList (fb_ref b) = nullptr
                    then Some (Inr (), b\<lparr>fb_ref := (fb_ref b)\<lparr>argList := tmp\<rparr>, curr := tmp\<rparr>, m2)
                    else (case nodes m2 (curr b) of
                            None \<Rightarrow> None
                          | Some n \<Rightarrow>
                              Some (Inr (), b\<lparr>curr := tmp\<rparr>,
                                    m2\<lparr>nodes := (nodes m2)(curr b \<mapsto> n\<lparr>nextArg := tmp\<rparr>)\<rparr>))))
        else Some (Inl (Problem ''ERROR: Attempted to build an argument list before setting the target function!''), b, m))"

text \<open>
  \<^verbatim>\<open>Environment::addExternalAddress<T>\<close>: the id of \<open>T\<close> is looked up first, and the
  lookup may throw.
\<close>

definition addExternalAddress :: "clips \<Rightarrow> 't cache \<Rightarrow> Environment \<Rightarrow> 't \<Rightarrow> addr \<Rightarrow> Problem + addr" where
  "addExternalAddress c cache e T v =
     (case getExternalAddressId cache T e of
        Inl p \<Rightarrow> Inl p
      | Inr i \<Rightarrow> Inr (EnvAddExternalAddress c (env e) v i))"

text \<open>
  The arguments \<^verbatim>\<open>addArgument\<close> is overloaded on: the scalars, a pointer to a host
  object of type \<open>T\<close>, the three containers, and the variadic pack
  \<^verbatim>\<open>addArgument(First f, Args... values)\<close>. A \<^verbatim>\<open>float\<close> reaches the engine converted to
  \<^verbatim>\<open>double\<close>. The overload on \<^verbatim>\<open>std::string\<close> passes \<^verbatim>\<open>str.c_str()\<close> to the overload
  on \<^verbatim>\<open>const char*\<close>, whose body is written out in its equation. \<open>CString\<close> is an
  argument of type \<^verbatim>\<open>const char*\<close> (a string literal is one); for an argument of type
  \<^verbatim>\<open>char*\<close> overload resolution selects the template on \<^verbatim>\<open>T*\<close>, so a writable
  character buffer is a \<open>Pointer\<close> whose host type is \<^verbatim>\<open>char\<close>. The elements of a
  \<^verbatim>\<open>std::list<T>\<close>, \<^verbatim>\<open>std::vector<T>\<close> or \<^verbatim>\<open>std::initializer_list<T>\<close> all have the
  type \<open>T\<close>; those of a pack need not.
\<close>

datatype 't arg =
    Bool bool
  | Int64 "64 word"
  | Int32 "32 word"
  | Float32 cdouble
  | Double cdouble
  | CString string
  | StdString string
  | Pointer 't addr
  | StdList "'t arg list"
  | InitializerList "'t arg list"
  | StdVector "'t arg list"
  | Pack "'t arg list"

fun addArgument :: "clips \<Rightarrow> 't cache \<Rightarrow> 't arg \<Rightarrow> FunctionBuilder \<times> exprmem \<Rightarrow> unit fb_result"
  and addArgument_each :: "clips \<Rightarrow> 't cache \<Rightarrow> 't arg list \<Rightarrow> FunctionBuilder \<times> exprmem \<Rightarrow> unit fb_result"
where
  "addArgument c cache (Bool v) s =
     installArgument SYMBOL
       (if v then EnvTrueSymbol c (getRawEnvironment (fb_env (fst s)))
        else EnvFalseSymbol c (getRawEnvironment (fb_env (fst s)))) s"
| "addArgument c cache (Int64 v) s = installArgument INTEGER (addNumber_int64 c (fb_env (fst s)) v) s"
| "addArgument c cache (Int32 v) s = installArgument INTEGER (addNumber_int32 c (fb_env (fst s)) v) s"
| "addArgument c cache (Float32 v) s = installArgument FLOAT (addNumber_double c (fb_env (fst s)) v) s"
| "addArgument c cache (Double v) s = installArgument FLOAT (addNumber_double c (fb_env (fst s)) v) s"
| "addArgument c cache (CString str) s = installArgument STRING (addSymbol c (fb_env (fst s)) str) s"
| "addArgument c cache (StdString str) s = installArgument STRING (addSymbol c (fb_env (fst s)) (c_str str)) s"
| "addArgument c cache (Pointer T v) s =
     (case addExternalAddress c cache (fb_env (fst s)) T v of
        Inl p \<Rightarrow> Some (Inl p, s)
      | Inr a \<Rightarrow> installArgument EXTERNAL_ADDRESS a s)"
| "addArgument c cache (StdList list) s = addArgument_each c cache list s"
| "addArgument c cache (InitializerList list) s = addArgument_each c cache list s"
| "addArgument c cache (StdVector list) s = addArgument_each c cache list s"
| "addArgument c cache (Pack values) s = addArgument_each c cache values s"
| "addArgument_each c cache [] s = Some (Inr (), s)"
| "addArgument_each c cache (element # rest) s =
     (case addArgument c cache element s of
        Some (Inr u, s') \<Rightarrow> addArgument_each c cache rest s'
      | other \<Rightarrow> other)"

subsection \<open>The text of a failed call\<close>

text \<open>
  A \<^verbatim>\<open>std::stringstream\<close>: the characters written so far and whether \<^verbatim>\<open>std::hex\<close> has
  been applied to it. The base stays set until it is changed again.
\<close>

record stream =
  str :: string
  hex :: bool

definition empty_stream :: stream where
  "empty_stream = \<lparr>str = [], hex = False\<rparr>"

definition put_string :: "string \<Rightarrow> stream \<Rightarrow> stream" where
  "put_string t s = s\<lparr>str := str s @ t\<rparr>"

definition set_hex :: "stream \<Rightarrow> stream" where
  "set_hex s = s\<lparr>hex := True\<rparr>"

fun dec_digits :: "nat \<Rightarrow> string" where
  "dec_digits n =
     (if n < 10 then [''0123456789'' ! n]
      else dec_digits (n div 10) @ [''0123456789'' ! (n mod 10)])"

fun hex_digits :: "nat \<Rightarrow> string" where
  "hex_digits n =
     (if n < 16 then [''0123456789abcdef'' ! n]
      else hex_digits (n div 16) @ [''0123456789abcdef'' ! (n mod 16)])"

text \<open>
  An \<^verbatim>\<open>int\<close> written to a stream: in decimal with its sign, or, once the base is
  hexadecimal, the digits of its bit pattern.
\<close>

definition format_int :: "bool \<Rightarrow> 32 word \<Rightarrow> string" where
  "format_int hexadecimal n =
     (if hexadecimal then hex_digits (unat n)
      else if sint n < 0 then CHR ''-'' # dec_digits (nat (- sint n))
      else dec_digits (nat (sint n)))"

definition put_int :: "32 word \<Rightarrow> stream \<Rightarrow> stream" where
  "put_int n s = s\<lparr>str := str s @ format_int (hex s) n\<rparr>"

definition put_double :: "cxx \<Rightarrow> cdouble \<Rightarrow> stream \<Rightarrow> stream" where
  "put_double x d s = s\<lparr>str := str s @ format_double x d\<rparr>"

definition put_pointer :: "cxx \<Rightarrow> addr \<Rightarrow> stream \<Rightarrow> stream" where
  "put_pointer x p s = s\<lparr>str := str s @ format_pointer x p\<rparr>"

text \<open>The two lambdas of \<^verbatim>\<open>invoke\<close>: \<^verbatim>\<open>installArgument\<close> and \<^verbatim>\<open>installAddress\<close>.\<close>

definition invoke_installArgument :: "string \<Rightarrow> (stream \<Rightarrow> stream) \<Rightarrow> string \<Rightarrow> stream \<Rightarrow> stream" where
  "invoke_installArgument prefix_text body suffix_text command =
     put_string '' '' (put_string suffix_text (body (put_string prefix_text (put_string '' '' command))))"

definition invoke_installAddress :: "cxx \<Rightarrow> string \<Rightarrow> addr \<Rightarrow> stream \<Rightarrow> stream" where
  "invoke_installAddress x type_label v command =
     invoke_installArgument (type_label @ ''<0x'') (\<lambda>stream. put_pointer x v (set_hex stream)) ''>'' command"

text \<open>The body of the loop of \<^verbatim>\<open>invoke\<close>: the switch over the type of one node.\<close>

definition render_arg :: "clips \<Rightarrow> cxx \<Rightarrow> expr \<Rightarrow> stream \<Rightarrow> stream" where
  "render_arg c x args command =
     (case expr_type args of
        STRING \<Rightarrow> invoke_installArgument [CHR 0x22] (put_string (DOPToString c (expr_value args))) [CHR 0x22] command
      | SYMBOL \<Rightarrow> invoke_installArgument [] (put_string (DOPToString c (expr_value args))) [] command
      | INSTANCE_NAME \<Rightarrow> invoke_installArgument ''['' (put_string (DOPToString c (expr_value args))) '']'' command
      | INTEGER \<Rightarrow> invoke_installArgument [] (put_int (DOPToInteger c (expr_value args))) [] command
      | FLOAT \<Rightarrow> invoke_installArgument [] (put_double x (DOPToDouble c (expr_value args))) [] command
      | INSTANCE_ADDRESS \<Rightarrow> invoke_installAddress x ''InstanceAddress'' (expr_value args) command
      | EXTERNAL_ADDRESS \<Rightarrow> invoke_installAddress x ''ExternalAddress'' (expr_value args) command
      | MULTIFIELD \<Rightarrow> invoke_installAddress x ''MULTIFIELD'' (expr_value args) command
      | _ \<Rightarrow> invoke_installAddress x ''UNKNOWN_TYPE'' (expr_value args) command)"

text \<open>\<^verbatim>\<open>for (auto args = _ref.argList; args; args = args->nextArg)\<close>.\<close>

partial_function (option) render_args :: "clips \<Rightarrow> cxx \<Rightarrow> (addr \<rightharpoonup> expr) \<Rightarrow> addr \<Rightarrow> stream \<Rightarrow> stream option" where
  "render_args c x h args command =
     (if args = nullptr then Some command
      else case h args of
             None \<Rightarrow> None
           | Some n \<Rightarrow> render_args c x h (nextArg n) (render_arg c x n command))"

declare render_args.simps [code]

definition invoke :: "clips \<Rightarrow> cxx \<Rightarrow> FunctionBuilder \<times> exprmem \<Rightarrow> DataObject fb_result" where
  "invoke c x s =
     (case s of (b, m) \<Rightarrow>
        if \<not> functionReferenceSet b
        then Some (Inl (Problem ''ERROR: attempted to invoke a function builder without setting its function!''), b, m)
        else (case evaluateExpression c (fb_env b) (fb_ref b) m of
                (ok, ret, m1) \<Rightarrow>
                  if ok then Some (Inr ret, b, m1)
                  else map_option
                         (\<lambda>command.
                            (Inl (Problem (''ERROR: invocation of '' @ str (put_string '')'' command)
                                            @ '' yielded an error!'')), b, m1))
                         (render_args c x (nodes m1) (argList (fb_ref b))
                            (put_string '' '' (put_string (fb_function b) (put_string ''('' empty_stream))))))"

subsection \<open>The build-evaluate cycle\<close>

text \<open>
  \<^verbatim>\<open>Environment::buildAndExecuteFunction(function, ret, args...)\<close>: a builder in
  automatic storage, bound, filled, invoked, and destroyed when the scope is left,
  by return or by exception.
\<close>

definition buildAndExecuteFunction ::
  "clips \<Rightarrow> cxx \<Rightarrow> 't cache \<Rightarrow> Environment \<Rightarrow> expr \<Rightarrow> string \<Rightarrow> 't arg list \<Rightarrow> exprmem
     \<Rightarrow> ((Problem + DataObject) \<times> exprmem) option" where
  "buildAndExecuteFunction c x cache e storage function args m =
     (case setFunctionReference c function (FunctionBuilder e storage, m) of
        None \<Rightarrow> None
      | Some (Inl p, fb) \<Rightarrow> map_option (\<lambda>gone. (Inl p, snd gone)) (destroy_FunctionBuilder fb)
      | Some (Inr u, fb) \<Rightarrow>
          (case addArgument_each c cache args fb of
             None \<Rightarrow> None
           | Some (Inl p, fb) \<Rightarrow> map_option (\<lambda>gone. (Inl p, snd gone)) (destroy_FunctionBuilder fb)
           | Some (Inr u, fb) \<Rightarrow>
               (case invoke c x fb of
                  None \<Rightarrow> None
                | Some (ret, fb) \<Rightarrow> map_option (\<lambda>gone. (ret, snd gone)) (destroy_FunctionBuilder fb))))"

section \<open>The argument chain as a list\<close>

text \<open>
  \<open>chain h p ps\<close>: following \<^verbatim>\<open>nextArg\<close> from \<open>p\<close> through the nodes of \<open>h\<close> visits
  exactly the addresses \<open>ps\<close>, in this order, and then reaches \<^verbatim>\<open>nullptr\<close>.
\<close>

fun chain :: "(addr \<rightharpoonup> expr) \<Rightarrow> addr \<Rightarrow> addr list \<Rightarrow> bool" where
  "chain h p [] = (p = nullptr)"
| "chain h p (a # as) =
     (p = a \<and> a \<noteq> nullptr \<and> (case h a of None \<Rightarrow> False | Some n \<Rightarrow> chain h (nextArg n) as))"

text \<open>Every node of \<open>ps\<close> is allocated and has no arguments of its own.\<close>

definition constants_only :: "(addr \<rightharpoonup> expr) \<Rightarrow> addr list \<Rightarrow> bool" where
  "constants_only h ps = (\<forall>q \<in> set ps. case h q of None \<Rightarrow> False | Some n \<Rightarrow> argList n = nullptr)"

text \<open>
  The state of a builder whose argument chain is \<open>ps\<close>: \<^verbatim>\<open>_ref.argList\<close> heads the
  chain, its nodes are constants, \<^verbatim>\<open>curr\<close> is its last node when there is one, and the
  allocator has handed out no address from \<open>brk\<close> on.
\<close>

definition builder_chain :: "FunctionBuilder \<times> exprmem \<Rightarrow> addr list \<Rightarrow> bool" where
  "builder_chain s ps =
     (case s of (b, m) \<Rightarrow>
        chain (nodes m) (argList (fb_ref b)) ps
      \<and> constants_only (nodes m) ps
      \<and> (ps \<noteq> [] \<longrightarrow> curr b = last ps)
      \<and> nullptr < brk m
      \<and> (\<forall>q. brk m \<le> q \<longrightarrow> nodes m q = None))"

text \<open>The type and value of the node at an address.\<close>

definition node_constant :: "exprmem \<Rightarrow> addr \<Rightarrow> (DataObjectType \<times> addr) option" where
  "node_constant m q = map_option (\<lambda>n. (expr_type n, expr_value n)) (nodes m q)"

text \<open>Two builder states that differ at most in the chain and in \<^verbatim>\<open>curr\<close>.\<close>

definition same_function :: "FunctionBuilder \<Rightarrow> FunctionBuilder \<Rightarrow> bool" where
  "same_function b b' =
     (functionReferenceSet b' = functionReferenceSet b \<and> fb_env b' = fb_env b
      \<and> fb_function b' = fb_function b
      \<and> (fb_ref b')\<lparr>argList := nullptr\<rparr> = (fb_ref b)\<lparr>argList := nullptr\<rparr>)"

text \<open>
  \<open>appended s ps cs s'\<close>: from a state \<open>s\<close> with chain \<open>ps\<close>, the state \<open>s'\<close> has the chain
  \<open>ps\<close> followed by one newly allocated node for each element of \<open>cs\<close>, in order, with
  the types and values \<open>cs\<close>. The nodes of \<open>ps\<close> keep their type and value, each new node
  has been installed once, in order, and no node outside the chain has changed.
\<close>

definition appended ::
  "FunctionBuilder \<times> exprmem \<Rightarrow> addr list \<Rightarrow> (DataObjectType \<times> addr) option list
     \<Rightarrow> FunctionBuilder \<times> exprmem \<Rightarrow> bool" where
  "appended s ps cs s' =
     (case s of (b, m) \<Rightarrow> case s' of (b', m') \<Rightarrow>
        builder_chain s' (ps @ [brk m ..< brk m + length cs])
      \<and> map (node_constant m') ps = map (node_constant m) ps
      \<and> map (node_constant m') [brk m ..< brk m + length cs] = cs
      \<and> brk m' = brk m + length cs
      \<and> events m' = events m @ map Installed [brk m ..< brk m + length cs]
      \<and> same_function b b'
      \<and> (\<forall>q. q \<notin> set ps \<longrightarrow> q < brk m \<longrightarrow> nodes m' q = nodes m q))"

text \<open>
  The elements of an argument in iteration order, containers flattened recursively,
  and the constant each scalar or pointer is converted to. A pointer has a conversion
  only when its host type is registered for the engine instance.
\<close>

fun leaves :: "'t arg \<Rightarrow> 't arg list" where
  "leaves (StdList list) = concat (map leaves list)"
| "leaves (InitializerList list) = concat (map leaves list)"
| "leaves (StdVector list) = concat (map leaves list)"
| "leaves (Pack values) = concat (map leaves values)"
| "leaves a = [a]"

text \<open>The arguments that are not containers.\<close>

fun is_leaf :: "'t arg \<Rightarrow> bool" where
  "is_leaf (StdList list) = False"
| "is_leaf (InitializerList list) = False"
| "is_leaf (StdVector list) = False"
| "is_leaf (Pack values) = False"
| "is_leaf a = True"

fun convert :: "clips \<Rightarrow> 't cache \<Rightarrow> Environment \<Rightarrow> 't arg \<Rightarrow> (DataObjectType \<times> addr) option" where
  "convert c cache e (Bool v) = Some (SYMBOL, if v then EnvTrueSymbol c (env e) else EnvFalseSymbol c (env e))"
| "convert c cache e (Int64 v) = Some (INTEGER, EnvAddLong c (env e) v)"
| "convert c cache e (Int32 v) = Some (INTEGER, EnvAddLong c (env e) (scast v))"
| "convert c cache e (Float32 v) = Some (FLOAT, EnvAddDouble c (env e) v)"
| "convert c cache e (Double v) = Some (FLOAT, EnvAddDouble c (env e) v)"
| "convert c cache e (CString chars) = Some (STRING, EnvAddSymbol c (env e) chars)"
| "convert c cache e (StdString chars) = Some (STRING, EnvAddSymbol c (env e) (c_str chars))"
| "convert c cache e (Pointer T v) =
     map_option (\<lambda>i. (EXTERNAL_ADDRESS, EnvAddExternalAddress c (env e) v i)) (cache T (env e))"
| "convert c cache e other = None"

definition convertible :: "clips \<Rightarrow> 't cache \<Rightarrow> Environment \<Rightarrow> 't arg list \<Rightarrow> bool" where
  "convertible c cache e ls = (\<forall>l \<in> set ls. convert c cache e l \<noteq> None)"

text \<open>
  An argument other than a pointer to a host object whose type has no id in the
  registry for the engine instance of \<open>e\<close>.
\<close>

fun registered :: "'t cache \<Rightarrow> Environment \<Rightarrow> 't arg \<Rightarrow> bool" where
  "registered cache e (Pointer T v) = (cache T (getRawEnvironment e) \<noteq> None)"
| "registered cache e a = True"

section \<open>The error taxonomy of the specification\<close>

text \<open>
  The specification names one error per failure; the library throws \<open>Problem\<close> with a
  message. Each name stands for the message of the \<^verbatim>\<open>throw\<close> it describes.
\<close>

definition CallError :: "string \<Rightarrow> string \<Rightarrow> Problem" where
  "CallError name argString = Problem (''Function call of ('' @ name @ '' '' @ argString @ '') failed!'')"

definition ParseError :: "string \<Rightarrow> Problem" where
  "ParseError path = Problem (''Unable to parse file: '' @ path)"

definition LoadError :: "string \<Rightarrow> Problem" where
  "LoadError path = Problem (''Unable to load file: '' @ path)"

definition UnregisteredTypeError :: Problem where
  "UnregisteredTypeError = Problem ''Attempted to get the external address index of something not registered from using an unregistered environment!''"

definition TypeMismatchError :: "string \<Rightarrow> Problem" where
  "TypeMismatchError type_name =
     Problem (''Attempted to cast external address to '' @ type_name @ '' when it is not tagged as such!'')"

definition InvocationError :: "string \<Rightarrow> Problem" where
  "InvocationError renderedCall = Problem (''ERROR: invocation of '' @ renderedCall @ '' yielded an error!'')"

definition BuilderMisuseError_argument :: Problem where
  "BuilderMisuseError_argument =
     Problem ''ERROR: Attempted to build an argument list before setting the target function!''"

definition BuilderMisuseError_invoke :: Problem where
  "BuilderMisuseError_invoke =
     Problem ''ERROR: attempted to invoke a function builder without setting its function!''"

definition UnknownFunctionError :: "string \<Rightarrow> Problem" where
  "UnknownFunctionError name = Problem (''Function '' @ name @ '' does not exist!!!!'')"

section \<open>Outcomes and texts the statements speak of\<close>

text \<open>
  What a call to \<open>addArgument\<close> on an Unbound builder ends with, from the flattened
  elements of its argument (the scalars and pointers it reaches, in iteration order):
  nothing to add returns normally; otherwise the first flattened element decides.
\<close>

fun unbound_outcome :: "'t cache \<Rightarrow> Environment \<Rightarrow> 't arg list \<Rightarrow> Problem + unit" where
  "unbound_outcome cache e [] = Inr ()"
| "unbound_outcome cache e (Pointer T v # rest) =
     (case cache T (getRawEnvironment e) of
        None \<Rightarrow> Inl UnregisteredTypeError
      | Some i \<Rightarrow> Inl BuilderMisuseError_argument)"
| "unbound_outcome cache e (a # rest) = Inl BuilderMisuseError_argument"

text \<open>
  The text of the arguments of a failed call, tag by tag: strings quoted, symbols
  bare, instance names in brackets, numbers as the stream writes them, and every
  other tag as a label followed by the pointer. \<open>hexadecimal\<close> is the base in which
  the stream writes integers when it reaches the argument; every address-like
  argument leaves the stream in hexadecimal.
\<close>

definition address_like :: "DataObjectType \<Rightarrow> bool" where
  "address_like t = (t \<noteq> STRING \<and> t \<noteq> SYMBOL \<and> t \<noteq> INSTANCE_NAME \<and> t \<noteq> INTEGER \<and> t \<noteq> FLOAT)"

definition arg_text :: "clips \<Rightarrow> cxx \<Rightarrow> bool \<Rightarrow> DataObjectType \<times> addr \<Rightarrow> string" where
  "arg_text c x hexadecimal tv =
     (case tv of (t, v) \<Rightarrow>
        (case t of
           STRING \<Rightarrow> [CHR 0x22] @ DOPToString c v @ [CHR 0x22]
         | SYMBOL \<Rightarrow> DOPToString c v
         | INSTANCE_NAME \<Rightarrow> ''['' @ DOPToString c v @ '']''
         | INTEGER \<Rightarrow> format_int hexadecimal (DOPToInteger c v)
         | FLOAT \<Rightarrow> format_double x (DOPToDouble c v)
         | INSTANCE_ADDRESS \<Rightarrow> ''InstanceAddress<0x'' @ format_pointer x v @ ''>''
         | EXTERNAL_ADDRESS \<Rightarrow> ''ExternalAddress<0x'' @ format_pointer x v @ ''>''
         | MULTIFIELD \<Rightarrow> ''MULTIFIELD<0x'' @ format_pointer x v @ ''>''
         | _ \<Rightarrow> ''UNKNOWN_TYPE<0x'' @ format_pointer x v @ ''>''))"

fun chain_text :: "clips \<Rightarrow> cxx \<Rightarrow> bool \<Rightarrow> (DataObjectType \<times> addr) list \<Rightarrow> string" where
  "chain_text c x hexadecimal [] = []"
| "chain_text c x hexadecimal (tv # rest) =
     '' '' @ arg_text c x hexadecimal tv @ '' ''
       @ chain_text c x (hexadecimal \<or> address_like (fst tv)) rest"

section \<open>Sample engine\<close>

text \<open>A small engine and two host types on which the theorems below are exercised.\<close>

datatype sample_host = Widget | Gadget

definition sample_typeid :: "sample_host \<Rightarrow> string" where
  "sample_typeid T = (case T of Widget \<Rightarrow> ''6Widget'' | Gadget \<Rightarrow> ''6Gadget'')"

definition owning :: "addr \<Rightarrow> Environment" where
  "owning theEnv = \<lparr>reclaim = True, env = theEnv\<rparr>"

definition sample_object :: DataObject where
  "sample_object = \<lparr>dobj_type = INTEGER, dobj_value = 7, dobj_begin = 0, dobj_end = 0\<rparr>"

definition sample_clips :: clips where
  "sample_clips =
     \<lparr>EnvFunctionCall = (\<lambda>theEnv name args. (if name = ''+'' then 0 else 1, sample_object)),
      EnvLoad = (\<lambda>theEnv path. if path = ''bad.clp'' then - 1 else if path = ''missing.clp'' then 0 else 1),
      EnvAddSymbol = (\<lambda>theEnv s. 100 + length s),
      EnvAddLong = (\<lambda>theEnv n. 200 + unat n),
      EnvAddDouble = (\<lambda>theEnv d. 300),
      EnvAddExternalAddress = (\<lambda>theEnv p i. 400 + p),
      EnvTrueSymbol = (\<lambda>theEnv. 2),
      EnvFalseSymbol = (\<lambda>theEnv. 1),
      GetFunctionReference = (\<lambda>theEnv name old.
         (name = ''f'' \<or> name = ''g'',
          \<lparr>expr_type = OTHER_TYPE 30,
           expr_value = (if name = ''f'' then 50 else if name = ''g'' then 51 else 0),
           argList = 0, nextArg = 0\<rparr>)),
      EvaluateExpression = (\<lambda>theEnv h e. (expr_value e \<noteq> 50, sample_object)),
      DOPToString = (\<lambda>p. if p = 103 then ''abc'' else ''sym''),
      DOPToInteger = (\<lambda>p. of_nat (p - 200)),
      DOPToDouble = (\<lambda>p. undefined),
      externalAddressNode = (\<lambda>p. \<lparr>externalAddress = p - 400, ea_type = 3\<rparr>)\<rparr>"

definition sample_cxx :: cxx where
  "sample_cxx = \<lparr>format_double = (\<lambda>d. ''1.5''), format_pointer = hex_digits\<rparr>"

definition sample_memory :: exprmem where
  "sample_memory = \<lparr>nodes = Map.empty, brk = 1, events = []\<rparr>"

definition sample_storage :: expr where
  "sample_storage = \<lparr>expr_type = FLOAT, expr_value = 0, argList = 0, nextArg = 0\<rparr>"

definition sample_cache :: "sample_host cache" where
  "sample_cache = registerExternalAddressId no_registrations Widget (borrowed 5) 3"

text \<open>The sample builder after \<^verbatim>\<open>setFunctionReference("g")\<close>, and some arguments.\<close>

definition sample_bound :: "FunctionBuilder \<times> exprmem" where
  "sample_bound =
     (\<lparr>fb_function = ''g'', fb_env = borrowed 5,
       fb_ref = \<lparr>expr_type = OTHER_TYPE 30, expr_value = 51, argList = 0, nextArg = 0\<rparr>,
       curr = 0, functionReferenceSet = True\<rparr>,
      sample_memory)"

definition sample_args :: "sample_host arg list" where
  "sample_args =
     [Pointer Widget 12, StdList [StdVector [Int32 255, Int32 7], StdVector []], Bool True]"

text \<open>The sample builder after \<^verbatim>\<open>addArgument(int32_t(7))\<close>.\<close>

definition sample_one_argument :: "FunctionBuilder \<times> exprmem" where
  "sample_one_argument =
     (\<lparr>fb_function = ''g'', fb_env = borrowed 5,
       fb_ref = \<lparr>expr_type = OTHER_TYPE 30, expr_value = 51, argList = 1, nextArg = 0\<rparr>,
       curr = 1, functionReferenceSet = True\<rparr>,
      \<lparr>nodes = [1 \<mapsto> \<lparr>expr_type = INTEGER, expr_value = 207, argList = 0, nextArg = 0\<rparr>],
       brk = 2, events = [Installed 1]\<rparr>)"

text \<open>A sample builder on which \<^verbatim>\<open>setFunctionReference\<close> was never called.\<close>

definition sample_unbound :: "FunctionBuilder \<times> exprmem" where
  "sample_unbound = (FunctionBuilder (borrowed 5) sample_storage, sample_memory)"

definition sample_call :: "sample_host arg list" where
  "sample_call = [Pointer Widget 12, Int32 255]"

text \<open>
  An expression memory in which somebody else has installed a node, and storage for a
  builder's \<^verbatim>\<open>_ref\<close> whose previous contents point at that node.
\<close>

definition sample_foreign :: exprmem where
  "sample_foreign =
     \<lparr>nodes = [7 \<mapsto> \<lparr>expr_type = INTEGER, expr_value = 455, argList = 0, nextArg = 0\<rparr>],
      brk = 8, events = [Installed 7]\<rparr>"

definition sample_stale :: expr where
  "sample_stale = \<lparr>expr_type = OTHER_TYPE 30, expr_value = 50, argList = 7, nextArg = 0\<rparr>"

section \<open>Theorems\<close>

subsection \<open>The external address registry\<close>

lemma no_registrations_apply [simp]: "no_registrations T p = None"
  by (simp add: no_registrations_def)

lemma emplace_fresh: "m k = None \<Longrightarrow> emplace m k v k = Some v"
  by (simp add: emplace_def)

lemma emplace_present: "m k = Some old \<Longrightarrow> emplace m k v = m"
  by (simp add: emplace_def)

lemma emplace_other: "k' \<noteq> k \<Longrightarrow> emplace m k v k' = m k'"
  by (simp add: emplace_def split: option.split)

lemma emplace_same: "emplace m k v k = Some (case m k of None \<Rightarrow> v | Some old \<Rightarrow> old)"
  by (simp add: emplace_def split: option.split)

text \<open>
  C6, as stated: registering \<open>i1\<close> and then \<open>i2\<close> for the same engine instance and host
  type makes a later lookup return \<open>i2\<close>. It fails: with no earlier registration,
  registering 1 and then 2 makes the lookup return 1.
\<close>

theorem register_twice_not_last_write:
  "getExternalAddressId
     (registerExternalAddressId
        (registerExternalAddressId no_registrations Widget (borrowed 5) 1) Widget (borrowed 5) 2)
     Widget (borrowed 5) \<noteq> Inr 2"
  by (simp add: getExternalAddressId_def registerExternalAddressId_def
      getExternalAddressId_raw_def registerExternalAddressId_raw_def
      getRawEnvironment_def borrowed_def emplace_def)

text \<open>
  C6, amended: the first registration wins. Whatever the registry held before, after
  registering \<open>i1\<close> and then \<open>i2\<close> for the same engine instance and host type the
  lookup succeeds and returns what it returned after the first registration alone;
  when the pair was not registered before, that is \<open>i1\<close>.
\<close>

theorem register_twice_first_write_wins:
  "getExternalAddressId
     (registerExternalAddressId (registerExternalAddressId cache T e i1) T e i2) T e
   = getExternalAddressId (registerExternalAddressId cache T e i1) T e
   \<and> (getExternalAddressId cache T e = Inl UnregisteredTypeError \<longrightarrow>
        getExternalAddressId
          (registerExternalAddressId (registerExternalAddressId cache T e i1) T e i2) T e
        = Inr i1)"
  by (simp add: getExternalAddressId_def registerExternalAddressId_def
      getExternalAddressId_raw_def registerExternalAddressId_raw_def
      UnregisteredTypeError_def emplace_def split: option.split)

theorem register_twice_first_write_wins_witness:
  "getExternalAddressId no_registrations Widget (borrowed 5) = Inl UnregisteredTypeError
   \<and> getExternalAddressId
       (registerExternalAddressId
          (registerExternalAddressId no_registrations Widget (borrowed 5) 1) Widget (borrowed 5) 2)
       Widget (borrowed 5) = Inr 1"
proof -
  have h: "getExternalAddressId no_registrations Widget (borrowed 5) = Inl UnregisteredTypeError"
    by (simp add: getExternalAddressId_def getExternalAddressId_raw_def UnregisteredTypeError_def)
  with register_twice_first_write_wins [of no_registrations Widget "borrowed 5" 1 2]
  show ?thesis by blast
qed

text \<open>
  C10: the registry is keyed by the raw engine pointer. After registering \<open>T\<close> through
  \<open>e1\<close>, the lookup succeeds with one and the same id through \<open>e1\<close> and through every
  wrapper \<open>e2\<close> over the same raw pointer (the id is the registered one when the pair
  was new); through a wrapper \<open>e3\<close> over another raw pointer for which \<open>T\<close> was not
  registered the lookup still fails.
\<close>

theorem registry_keyed_by_raw_pointer:
  "(getRawEnvironment e2 = getRawEnvironment e1 \<longrightarrow>
      (\<exists>j. getExternalAddressId (registerExternalAddressId cache T e1 i) T e1 = Inr j
         \<and> getExternalAddressId (registerExternalAddressId cache T e1 i) T e2 = Inr j
         \<and> (getExternalAddressId cache T e1 = Inl UnregisteredTypeError \<longrightarrow> j = i)))
   \<and> (getRawEnvironment e3 \<noteq> getRawEnvironment e1
        \<and> getExternalAddressId cache T e3 = Inl UnregisteredTypeError \<longrightarrow>
      getExternalAddressId (registerExternalAddressId cache T e1 i) T e3
        = Inl UnregisteredTypeError)"
  by (auto simp add: getExternalAddressId_def registerExternalAddressId_def
      getExternalAddressId_raw_def registerExternalAddressId_raw_def
      UnregisteredTypeError_def emplace_def split: option.splits)

theorem registry_keyed_by_raw_pointer_witness:
  "getRawEnvironment (borrowed 5) = getRawEnvironment (owning 5)
   \<and> getExternalAddressId no_registrations Widget (owning 5) = Inl UnregisteredTypeError
   \<and> getExternalAddressId (registerExternalAddressId no_registrations Widget (owning 5) 9)
        Widget (owning 5) = Inr 9
   \<and> getExternalAddressId (registerExternalAddressId no_registrations Widget (owning 5) 9)
        Widget (borrowed 5) = Inr 9
   \<and> getRawEnvironment (borrowed 6) \<noteq> getRawEnvironment (owning 5)
   \<and> getExternalAddressId no_registrations Widget (borrowed 6) = Inl UnregisteredTypeError
   \<and> getExternalAddressId (registerExternalAddressId no_registrations Widget (owning 5) 9)
        Widget (borrowed 6) = Inl UnregisteredTypeError"
proof -
  have h1: "getRawEnvironment (borrowed 5) = getRawEnvironment (owning 5)"
    and h2: "getRawEnvironment (borrowed 6) \<noteq> getRawEnvironment (owning 5)"
    by (simp_all add: getRawEnvironment_def borrowed_def owning_def)
  have h3: "getExternalAddressId no_registrations Widget (owning 5) = Inl UnregisteredTypeError"
    and h4: "getExternalAddressId no_registrations Widget (borrowed 6) = Inl UnregisteredTypeError"
    by (simp_all add: getExternalAddressId_def getExternalAddressId_raw_def
        UnregisteredTypeError_def)
  from registry_keyed_by_raw_pointer
    [of "borrowed 5" "owning 5" no_registrations Widget 9 "borrowed 6"] h1 h2 h3 h4
  show ?thesis by auto
qed

text \<open>
  C5, as stated: the checked cast fails with a \<open>TypeMismatchError\<close> in every case in
  which it does not return the pointer. It fails: when the host type is not
  registered for the engine instance, the cast fails with the error of the lookup.
\<close>

theorem cast_unregistered_not_mismatch:
  "fromExternalAddress sample_clips sample_typeid no_registrations Widget (borrowed 5)
      \<lparr>dobj_type = EXTERNAL_ADDRESS, dobj_value = 412, dobj_begin = 0, dobj_end = 0\<rparr>
     = Inl UnregisteredTypeError
   \<and> UnregisteredTypeError \<noteq> TypeMismatchError (sample_typeid Widget)"
  by (simp add: fromExternalAddress_def externalAddressIsOfType_def getExternalAddressId_def
      getExternalAddressId_raw_def UnregisteredTypeError_def TypeMismatchError_def
      sample_typeid_def)

text \<open>
  C5, amended: a lookup of the id of \<open>T\<close> for an engine instance with no entry for \<open>T\<close>
  fails with \<open>UnregisteredTypeError\<close>, and so does the checked cast to \<open>T\<close>. When \<open>T\<close>
  is registered with id \<open>i\<close>, the cast returns the embedded pointer exactly when the
  embedded type tag of the value equals \<open>i\<close>, and fails with \<open>TypeMismatchError\<close>
  otherwise.
\<close>

theorem fromExternalAddress_checked:
  "(cache T (getRawEnvironment e) = None \<longrightarrow>
      getExternalAddressId cache T e = Inl UnregisteredTypeError
      \<and> fromExternalAddress c typeid_name cache T e d = Inl UnregisteredTypeError)
   \<and> (cache T (getRawEnvironment e) = Some i \<longrightarrow>
      getExternalAddressId cache T e = Inr i
      \<and> fromExternalAddress c typeid_name cache T e d
          = (if ea_type (externalAddressNode c (dobj_value d)) = i
             then Inr (externalAddress (externalAddressNode c (dobj_value d)))
             else Inl (TypeMismatchError (typeid_name T))))"
  by (simp add: fromExternalAddress_def externalAddressIsOfType_def getExternalAddressId_def
      getExternalAddressId_raw_def UnregisteredTypeError_def TypeMismatchError_def)

theorem fromExternalAddress_checked_witness:
  "no_registrations Gadget (getRawEnvironment (borrowed 5)) = (None :: int option)
   \<and> fromExternalAddress sample_clips sample_typeid no_registrations Gadget (borrowed 5)
        \<lparr>dobj_type = EXTERNAL_ADDRESS, dobj_value = 412, dobj_begin = 0, dobj_end = 0\<rparr>
       = Inl UnregisteredTypeError
   \<and> (registerExternalAddressId no_registrations Widget (borrowed 5) 3) Widget
        (getRawEnvironment (borrowed 5)) = Some 3
   \<and> fromExternalAddress sample_clips sample_typeid
        (registerExternalAddressId no_registrations Widget (borrowed 5) 3) Widget (borrowed 5)
        \<lparr>dobj_type = EXTERNAL_ADDRESS, dobj_value = 412, dobj_begin = 0, dobj_end = 0\<rparr>
       = Inr 12
   \<and> (registerExternalAddressId no_registrations Widget (borrowed 5) 4) Widget
        (getRawEnvironment (borrowed 5)) = Some 4
   \<and> fromExternalAddress sample_clips sample_typeid
        (registerExternalAddressId no_registrations Widget (borrowed 5) 4) Widget (borrowed 5)
        \<lparr>dobj_type = EXTERNAL_ADDRESS, dobj_value = 412, dobj_begin = 0, dobj_end = 0\<rparr>
       = Inl (TypeMismatchError ''6Widget'')"
proof -
  let ?d = "\<lparr>dobj_type = EXTERNAL_ADDRESS, dobj_value = 412, dobj_begin = 0, dobj_end = 0\<rparr>"
  have h0: "no_registrations Gadget (getRawEnvironment (borrowed 5)) = (None :: int option)"
    by simp
  have h3: "(registerExternalAddressId no_registrations Widget (borrowed 5) 3) Widget
        (getRawEnvironment (borrowed 5)) = Some 3"
    and h4: "(registerExternalAddressId no_registrations Widget (borrowed 5) 4) Widget
        (getRawEnvironment (borrowed 5)) = Some 4"
    by (simp_all add: registerExternalAddressId_def registerExternalAddressId_raw_def emplace_def)
  have n: "ea_type (externalAddressNode sample_clips (dobj_value ?d)) = 3"
    "externalAddress (externalAddressNode sample_clips (dobj_value ?d)) = 12"
    "sample_typeid Widget = ''6Widget''"
    by (simp_all add: sample_clips_def sample_typeid_def)
  from fromExternalAddress_checked
      [of no_registrations Gadget "borrowed 5" sample_clips sample_typeid ?d 0] h0
  have a: "fromExternalAddress sample_clips sample_typeid no_registrations Gadget (borrowed 5) ?d
       = Inl UnregisteredTypeError"
    by blast
  from fromExternalAddress_checked
      [of "registerExternalAddressId no_registrations Widget (borrowed 5) 3" Widget "borrowed 5"
          sample_clips sample_typeid ?d 3] h3 n
  have b: "fromExternalAddress sample_clips sample_typeid
        (registerExternalAddressId no_registrations Widget (borrowed 5) 3) Widget (borrowed 5) ?d
       = Inr 12"
    by simp
  from fromExternalAddress_checked
      [of "registerExternalAddressId no_registrations Widget (borrowed 5) 4" Widget "borrowed 5"
          sample_clips sample_typeid ?d 4] h4 n
  have c: "fromExternalAddress sample_clips sample_typeid
        (registerExternalAddressId no_registrations Widget (borrowed 5) 4) Widget (borrowed 5) ?d
       = Inl (TypeMismatchError ''6Widget'')"
    by simp
  from h0 h3 h4 a b c show ?thesis by blast
qed

subsection \<open>Value extraction\<close>

text \<open>
  C7: the extracted boolean is true exactly when the tag is \<open>SYMBOL\<close> and the value is
  not the false symbol of the engine; for a tag other than \<open>SYMBOL\<close> it is false
  whatever the value.
\<close>

theorem extractData_bool_symbol_convention:
  "extractData_bool c e d
     = (dobj_type d = SYMBOL \<and> dobj_value d \<noteq> EnvFalseSymbol c (getRawEnvironment e))
   \<and> (dobj_type d \<noteq> SYMBOL \<longrightarrow> \<not> extractData_bool c e d)"
  by (auto simp add: extractData_bool_def)

theorem extractData_bool_symbol_convention_witness:
  "dobj_type sample_object \<noteq> SYMBOL
   \<and> \<not> extractData_bool sample_clips (borrowed 5) sample_object
   \<and> extractData_bool sample_clips (borrowed 5) (sample_object\<lparr>dobj_type := SYMBOL\<rparr>)
   \<and> \<not> extractData_bool sample_clips (borrowed 5)
         (sample_object\<lparr>dobj_type := SYMBOL, dobj_value := 1\<rparr>)"
proof -
  have h: "dobj_type sample_object \<noteq> SYMBOL"
    by (simp add: sample_object_def)
  from extractData_bool_symbol_convention [of sample_clips "borrowed 5" sample_object] h
  have a: "\<not> extractData_bool sample_clips (borrowed 5) sample_object"
    by blast
  have b: "extractData_bool sample_clips (borrowed 5) (sample_object\<lparr>dobj_type := SYMBOL\<rparr>)"
    using extractData_bool_symbol_convention
      [of sample_clips "borrowed 5" "sample_object\<lparr>dobj_type := SYMBOL\<rparr>"]
    by (simp add: sample_object_def sample_clips_def)
  have c: "\<not> extractData_bool sample_clips (borrowed 5)
         (sample_object\<lparr>dobj_type := SYMBOL, dobj_value := 1\<rparr>)"
    using extractData_bool_symbol_convention
      [of sample_clips "borrowed 5" "sample_object\<lparr>dobj_type := SYMBOL, dobj_value := 1\<rparr>"]
    by (simp add: sample_object_def sample_clips_def)
  from h a b c show ?thesis by blast
qed

subsection \<open>Function calls and file loading\<close>

lemma sublist_middle: "sublist xs (ps @ xs @ ss)"
  unfolding sublist_def by blast

lemma funcall_overloads_status:
  "funcall_discard c e name args = fst (funcall c e name args)"
  "funcall_noargs c e name = funcall c e name []"
  "funcall_noargs_discard c e name = fst (funcall c e name [])"
  "funcall_bool c e name args
     = (case fst (funcall c e name args) of
          Inl p \<Rightarrow> Inl p
        | Inr u \<Rightarrow> Inr (extractData_bool c e (snd (funcall c e name args))))"
  by (simp_all add: funcall_discard_def funcall_noargs_def funcall_noargs_discard_def
      funcall_bool_def split: prod.split sum.split)

text \<open>
  C8: \<open>funcall\<close> returns normally, with the result object the engine wrote, exactly
  when the raw function-call primitive returns status zero; for every other status it
  fails with a \<open>CallError\<close> whose message contains the function name and the argument
  string.
\<close>

theorem funcall_status:
  "(fst (EnvFunctionCall c (env e) (c_str name) (c_str args)) = 0 \<longrightarrow>
      funcall c e name args = (Inr (), snd (EnvFunctionCall c (env e) (c_str name) (c_str args))))
   \<and> (fst (EnvFunctionCall c (env e) (c_str name) (c_str args)) \<noteq> 0 \<longrightarrow>
      fst (funcall c e name args) = Inl (CallError name args)
      \<and> sublist name (message (CallError name args))
      \<and> sublist args (message (CallError name args)))"
proof -
  have "sublist name (''Function call of ('' @ name @ ('' '' @ args @ '') failed!''))"
    by (rule sublist_middle)
  moreover have "sublist args ((''Function call of ('' @ name @ '' '') @ args @ '') failed!'')"
    by (rule sublist_middle)
  ultimately show ?thesis
    by (simp add: funcall_def CallError_def split: prod.split)
qed

theorem funcall_status_witness:
  "fst (EnvFunctionCall sample_clips (env (borrowed 5)) (c_str ''+'') (c_str ''2 3'')) = 0
   \<and> funcall sample_clips (borrowed 5) ''+'' ''2 3'' = (Inr (), sample_object)
   \<and> fst (EnvFunctionCall sample_clips (env (borrowed 5)) (c_str ''nope'') (c_str ''2 3'')) \<noteq> 0
   \<and> fst (funcall sample_clips (borrowed 5) ''nope'' ''2 3'')
       = Inl (Problem ''Function call of (nope 2 3) failed!'')"
proof -
  have h0: "fst (EnvFunctionCall sample_clips (env (borrowed 5)) (c_str ''+'') (c_str ''2 3'')) = 0"
    and h1: "fst (EnvFunctionCall sample_clips (env (borrowed 5)) (c_str ''nope'') (c_str ''2 3'')) \<noteq> 0"
    and s: "snd (EnvFunctionCall sample_clips (env (borrowed 5)) (c_str ''+'') (c_str ''2 3'')) = sample_object"
    by (simp_all add: sample_clips_def c_str_def)
  from funcall_status [of sample_clips "borrowed 5" "''+''" "''2 3''"] h0 s
  have a: "funcall sample_clips (borrowed 5) ''+'' ''2 3'' = (Inr (), sample_object)"
    by simp
  from funcall_status [of sample_clips "borrowed 5" "''nope''" "''2 3''"] h1
  have b: "fst (funcall sample_clips (borrowed 5) ''nope'' ''2 3'')
       = Inl (Problem ''Function call of (nope 2 3) failed!'')"
    by (simp add: CallError_def)
  from h0 h1 a b show ?thesis by blast
qed

text \<open>
  C9: \<open>loadFile\<close> follows the three-way result of the engine's load: a parse failure
  (\<open>-1\<close>) gives a \<open>ParseError\<close> carrying the path, an unreadable file (\<open>0\<close>) gives a
  \<open>LoadError\<close> carrying the path, and every other result returns with nothing.
\<close>

theorem loadFile_tristate:
  "(EnvLoad c (env e) (c_str path) = - 1 \<longrightarrow>
      loadFile c e path = Inl (ParseError path) \<and> sublist path (message (ParseError path)))
   \<and> (EnvLoad c (env e) (c_str path) = 0 \<longrightarrow>
      loadFile c e path = Inl (LoadError path) \<and> sublist path (message (LoadError path)))
   \<and> (EnvLoad c (env e) (c_str path) \<noteq> - 1 \<and> EnvLoad c (env e) (c_str path) \<noteq> 0 \<longrightarrow>
      loadFile c e path = Inr ())"
proof -
  have "sublist path (''Unable to parse file: '' @ path @ [])"
    and "sublist path (''Unable to load file: '' @ path @ [])"
    by (rule sublist_middle)+
  then show ?thesis
    by (simp add: loadFile_def ParseError_def LoadError_def Let_def)
qed

theorem loadFile_tristate_witness:
  "EnvLoad sample_clips (env (borrowed 5)) (c_str ''bad.clp'') = - 1
   \<and> loadFile sample_clips (borrowed 5) ''bad.clp'' = Inl (Problem ''Unable to parse file: bad.clp'')
   \<and> EnvLoad sample_clips (env (borrowed 5)) (c_str ''missing.clp'') = 0
   \<and> loadFile sample_clips (borrowed 5) ''missing.clp''
       = Inl (Problem ''Unable to load file: missing.clp'')
   \<and> EnvLoad sample_clips (env (borrowed 5)) (c_str ''rules.clp'') \<noteq> - 1
   \<and> EnvLoad sample_clips (env (borrowed 5)) (c_str ''rules.clp'') \<noteq> 0
   \<and> loadFile sample_clips (borrowed 5) ''rules.clp'' = Inr ()"
proof -
  have h: "EnvLoad sample_clips (env (borrowed 5)) (c_str ''bad.clp'') = - 1"
    "EnvLoad sample_clips (env (borrowed 5)) (c_str ''missing.clp'') = 0"
    "EnvLoad sample_clips (env (borrowed 5)) (c_str ''rules.clp'') \<noteq> - 1"
    "EnvLoad sample_clips (env (borrowed 5)) (c_str ''rules.clp'') \<noteq> 0"
    by (simp_all add: sample_clips_def c_str_def)
  from loadFile_tristate [of sample_clips "borrowed 5" "''bad.clp''"] h
  have a: "loadFile sample_clips (borrowed 5) ''bad.clp'' = Inl (Problem ''Unable to parse file: bad.clp'')"
    by (simp add: ParseError_def)
  from loadFile_tristate [of sample_clips "borrowed 5" "''missing.clp''"] h
  have b: "loadFile sample_clips (borrowed 5) ''missing.clp''
       = Inl (Problem ''Unable to load file: missing.clp'')"
    by (simp add: LoadError_def)
  from loadFile_tristate [of sample_clips "borrowed 5" "''rules.clp''"] h
  have c: "loadFile sample_clips (borrowed 5) ''rules.clp'' = Inr ()"
    by simp
  from h a b c show ?thesis by blast
qed

subsection \<open>The argument chain of the builder\<close>

lemma chain_unique: "chain h p xs \<Longrightarrow> chain h p ys \<Longrightarrow> xs = ys"
proof (induction xs arbitrary: p ys)
  case Nil
  then show ?case by (cases ys) auto
next
  case (Cons a xs)
  then show ?case by (cases ys) (auto split: option.splits)
qed

lemma chain_suffix: "chain h p (xs @ a # ys) \<Longrightarrow> chain h a (a # ys)"
proof (induction xs arbitrary: p)
  case Nil
  then show ?case by simp
next
  case (Cons b xs)
  from Cons.prems obtain n :: expr where "chain h (nextArg n) (xs @ a # ys)"
    by (auto split: option.splits)
  then show ?case by (rule Cons.IH)
qed

lemma chain_distinct: "chain h p ps \<Longrightarrow> distinct ps"
proof (induction ps arbitrary: p)
  case Nil
  then show ?case by simp
next
  case (Cons a as)
  from Cons.prems obtain n where n: "h a = Some n" "chain h (nextArg n) as"
    by (auto split: option.splits)
  have "a \<notin> set as"
  proof
    assume "a \<in> set as"
    then obtain xs ys where as: "as = xs @ a # ys"
      by (auto dest: split_list)
    with Cons.prems have "chain h a (a # ys)"
      using chain_suffix [of h p "a # xs" a ys] by simp
    moreover from Cons.prems have "chain h a (a # as)" by simp
    ultimately have "a # ys = a # as" by (rule chain_unique)
    with as show False by simp
  qed
  with n Cons.IH show ?case by simp
qed

lemma chain_update_other: "u \<notin> set ps \<Longrightarrow> chain (h(u \<mapsto> v)) p ps = chain h p ps"
  by (induction ps arbitrary: p) (auto split: option.splits)

lemma chain_last_null:
  "chain h p ps \<Longrightarrow> ps \<noteq> [] \<Longrightarrow> \<exists>n. h (last ps) = Some n \<and> nextArg n = nullptr"
  by (induction ps arbitrary: p) (auto split: option.splits if_splits)

lemma chain_snoc:
  assumes "chain h p ps" "ps \<noteq> []" "h (last ps) = Some n" "t \<noteq> nullptr" "t \<notin> set ps"
    "nextArg new = nullptr"
  shows "chain (h(t \<mapsto> new, last ps \<mapsto> n\<lparr>nextArg := t\<rparr>)) p (ps @ [t])"
  using assms
proof (induction ps arbitrary: p)
  case Nil
  then show ?case by simp
next
  case (Cons a as)
  show ?case
  proof (cases "as = []")
    case True
    with Cons.prems show ?thesis by (auto split: option.splits)
  next
    case False
    have d: "distinct (a # as)" by (rule chain_distinct [OF Cons.prems(1)])
    with False have "a \<noteq> last as" by auto
    moreover from Cons.prems obtain m where m: "h a = Some m" "chain h (nextArg m) as"
      by (auto split: option.splits)
    moreover from Cons.prems False have "t \<noteq> a" "t \<notin> set as" "h (last as) = Some n" by auto
    ultimately show ?thesis
      using Cons.IH [of "nextArg m"] Cons.prems False by auto
  qed
qed

lemma install_order_chain:
  "chain h p ps \<Longrightarrow> constants_only h ps \<Longrightarrow> install_order h p = Some ps"
proof (induction ps arbitrary: p)
  case Nil
  then show ?case by (simp add: install_order.simps)
next
  case (Cons a as)
  from Cons.prems obtain n where n: "h a = Some n" "chain h (nextArg n) as" "argList n = nullptr"
    "p = a" "a \<noteq> nullptr"
    by (auto simp add: constants_only_def split: option.splits)
  from Cons.prems have "constants_only h as" by (simp add: constants_only_def)
  with n Cons.IH have "install_order h (nextArg n) = Some as" by blast
  moreover have "install_order h nullptr = Some []" by (simp add: install_order.simps)
  ultimately show ?case using n
    by (subst install_order.simps) simp
qed

lemma reclaim_order_chain:
  "chain h p ps \<Longrightarrow> constants_only h ps \<Longrightarrow> reclaim_order h p = Some ps"
proof (induction ps arbitrary: p)
  case Nil
  then show ?case by (simp add: reclaim_order.simps)
next
  case (Cons a as)
  from Cons.prems obtain n where n: "h a = Some n" "chain h (nextArg n) as" "argList n = nullptr"
    "p = a" "a \<noteq> nullptr"
    by (auto simp add: constants_only_def split: option.splits)
  from Cons.prems have "constants_only h as" by (simp add: constants_only_def)
  with n Cons.IH have "reclaim_order h (nextArg n) = Some as" by blast
  moreover have "reclaim_order h nullptr = Some []" by (simp add: reclaim_order.simps)
  ultimately show ?case using n
    by (subst reclaim_order.simps) simp
qed

lemma render_args_chain:
  "chain h p ps \<Longrightarrow> render_args c x h p s = Some (fold (\<lambda>q. render_arg c x (the (h q))) ps s)"
proof (induction ps arbitrary: p s)
  case Nil
  then show ?case by (simp add: render_args.simps)
next
  case (Cons a as)
  from Cons.prems obtain n where n: "h a = Some n" "chain h (nextArg n) as" "p = a" "a \<noteq> nullptr"
    by (auto split: option.splits)
  with Cons.IH [of "nextArg n" "render_arg c x n s"] show ?case
    by (subst render_args.simps) simp
qed


lemma chain_null: "chain h nullptr ps \<longleftrightarrow> ps = []"
  by (cases ps) auto

lemma chain_nonnull: "chain h p ps \<Longrightarrow> p \<noteq> nullptr \<Longrightarrow> ps \<noteq> []"
  by (cases ps) auto

lemma install_order_fresh:
  "p \<noteq> nullptr \<Longrightarrow> h p = Some n \<Longrightarrow> argList n = nullptr \<Longrightarrow> nextArg n = nullptr
   \<Longrightarrow> install_order h p = Some [p]"
  by (subst install_order.simps) (simp add: install_order.simps)

lemma installArgument_appends:
  assumes inv: "builder_chain (b, m) ps" and set: "functionReferenceSet b"
  shows "\<exists>s'. installArgument t v (b, m) = Some (Inr (), s') \<and> appended (b, m) ps [Some (t, v)] s'"
proof -
  let ?new = "\<lparr>expr_type = t, expr_value = v, argList = nullptr, nextArg = nullptr\<rparr>"
  let ?t = "brk m"
  let ?m1 = "m\<lparr>nodes := (nodes m)(?t \<mapsto> ?new), brk := Suc ?t\<rparr>"
  let ?m2 = "?m1\<lparr>events := events m @ [Installed ?t]\<rparr>"
  from inv have ch: "chain (nodes m) (argList (fb_ref b)) ps"
    and co: "constants_only (nodes m) ps"
    and cu: "ps \<noteq> [] \<longrightarrow> curr b = last ps"
    and pos: "nullptr < ?t"
    and fr: "\<forall>q. ?t \<le> q \<longrightarrow> nodes m q = None"
    by (simp_all add: builder_chain_def)
  from fr have tfree: "nodes m ?t = None" by simp
  from co tfree have tnot: "?t \<notin> set ps"
    by (auto simp add: constants_only_def)
  have gen: "generateConstantExpression t v m = (?t, ?m1)"
    by (simp add: generateConstantExpression_def GenConstant_def)
  from pos have "install_order (nodes ?m1) ?t = Some [?t]"
    by (intro install_order_fresh [where n = ?new]) simp_all
  then have inst: "installExpression ?t ?m1 = Some ?m2"
    by (simp add: installExpression_def ExpressionInstall_def)
  show ?thesis
  proof (cases "argList (fb_ref b) = nullptr")
    case True
    with ch have ps: "ps = []" by (simp add: chain_null)
    let ?b' = "b\<lparr>fb_ref := (fb_ref b)\<lparr>argList := ?t\<rparr>, curr := ?t\<rparr>"
    from True set gen inst have "installArgument t v (b, m) = Some (Inr (), ?b', ?m2)"
      by (simp add: installArgument_def)
    moreover from pos fr have "appended (b, m) ps [Some (t, v)] (?b', ?m2)"
      by (simp add: appended_def builder_chain_def constants_only_def node_constant_def
          same_function_def ps)
    ultimately show ?thesis by blast
  next
    case False
    with ch have ne: "ps \<noteq> []" by (rule chain_nonnull)
    with cu have cur: "curr b = last ps" by simp
    from ch ne obtain n where n: "nodes m (last ps) = Some n" "nextArg n = nullptr"
      by (auto dest: chain_last_null)
    from ne tnot have lt: "last ps \<noteq> ?t" by (metis last_in_set)
    let ?h' = "(nodes m)(?t \<mapsto> ?new, last ps \<mapsto> n\<lparr>nextArg := ?t\<rparr>)"
    let ?m' = "?m2\<lparr>nodes := ?h'\<rparr>"
    let ?b' = "b\<lparr>curr := ?t\<rparr>"
    from False set gen inst n lt cur
    have run: "installArgument t v (b, m) = Some (Inr (), ?b', ?m')"
      by (simp add: installArgument_def)
    from ch ne n pos tnot have ch': "chain ?h' (argList (fb_ref b)) (ps @ [?t])"
      by (intro chain_snoc) simp_all
    from ne have "last ps \<in> set ps" by simp
    with co n have "argList n = nullptr"
      by (fastforce simp add: constants_only_def)
    with co tnot have co': "constants_only ?h' (ps @ [?t])"
      by (auto simp add: constants_only_def)
    from tnot n have keep: "map (node_constant ?m') ps = map (node_constant m) ps"
      by (auto simp add: node_constant_def)
    from lt have fresh: "node_constant ?m' ?t = Some (t, v)"
      by (simp add: node_constant_def)
    from ne have frame: "\<forall>q. q \<notin> set ps \<longrightarrow> q < ?t \<longrightarrow> nodes ?m' q = nodes m q"
      by auto
    from fr lt have fr': "\<forall>q. Suc ?t \<le> q \<longrightarrow> ?h' q = None"
      using n by auto
    from ch' co' keep fresh frame fr' pos
    have "appended (b, m) ps [Some (t, v)] (?b', ?m')"
      by (simp add: appended_def builder_chain_def same_function_def)
    with run show ?thesis by blast
  qed
qed


lemma appended_refl: "builder_chain s ps \<Longrightarrow> appended s ps [] s"
  by (cases s) (simp add: appended_def same_function_def)

lemma appended_trans:
  assumes 1: "appended s ps cs s'"
    and 2: "appended s' (ps @ [brk (snd s) ..< brk (snd s) + length cs]) ds s''"
  shows "appended s ps (cs @ ds) s''"
proof -
  obtain b m b' m' b'' m'' where s: "s = (b, m)" "s' = (b', m')" "s'' = (b'', m'')"
    by (cases s, cases s', cases s'') blast
  let ?k = "brk m"
  let ?n1 = "[?k ..< ?k + length cs]"
  let ?n2 = "[?k + length cs ..< ?k + length cs + length ds]"
  from 1 s have brk': "brk m' = ?k + length cs" by (simp add: appended_def)
  have "[?k ..< (?k + length cs) + length ds] = ?n1 @ ?n2"
    by (rule upt_add_eq_append) simp
  moreover have len: "?k + length (cs @ ds) = (?k + length cs) + length ds"
    by simp
  ultimately have split: "[?k ..< ?k + length (cs @ ds)] = ?n1 @ ?n2"
    by (simp only:)
  have a2:
    "builder_chain (b'', m'') ((ps @ ?n1) @ ?n2)"
    "map (node_constant m'') (ps @ ?n1) = map (node_constant m') (ps @ ?n1)"
    "map (node_constant m'') ?n2 = ds"
    "brk m'' = ?k + length cs + length ds"
    "events m'' = events m' @ map Installed ?n2"
    "same_function b' b''"
    "\<forall>q. q \<notin> set (ps @ ?n1) \<longrightarrow> q < brk m' \<longrightarrow> nodes m'' q = nodes m' q"
    using 2 unfolding s appended_def prod.case snd_conv brk' by blast+
  have a1:
    "map (node_constant m') ps = map (node_constant m) ps"
    "map (node_constant m') ?n1 = cs"
    "events m' = events m @ map Installed ?n1"
    "same_function b b'"
    "\<forall>q. q \<notin> set ps \<longrightarrow> q < ?k \<longrightarrow> nodes m' q = nodes m q"
    using 1 unfolding s appended_def prod.case by blast+
  from a1(4) a2(6) have sf: "same_function b b''"
    by (simp add: same_function_def)
  have frame: "\<forall>q. q \<notin> set ps \<longrightarrow> q < ?k \<longrightarrow> nodes m'' q = nodes m q"
  proof (intro allI impI)
    fix q assume q: "q \<notin> set ps" "q < ?k"
    then have "q \<notin> set (ps @ ?n1)" "q < brk m'" using brk' by auto
    with a2(7) have "nodes m'' q = nodes m' q" by blast
    with a1(5) q show "nodes m'' q = nodes m q" by simp
  qed
  from a2(2) have k1: "map (node_constant m'') ps = map (node_constant m') ps"
    and k2: "map (node_constant m'') ?n1 = map (node_constant m') ?n1"
    by simp_all
  from a2(1) have c1: "builder_chain (b'', m'') (ps @ [?k ..< ?k + length (cs @ ds)])"
    by (simp only: split append_assoc)
  from k1 a1(1) have c2: "map (node_constant m'') ps = map (node_constant m) ps"
    by simp
  from k2 a1(2) a2(3) have c3: "map (node_constant m'') [?k ..< ?k + length (cs @ ds)] = cs @ ds"
    by (simp only: split map_append)
  from a2(4) have c4: "brk m'' = ?k + length (cs @ ds)"
    by (simp only: len)
  from a1(3) a2(5) have c5: "events m'' = events m @ map Installed [?k ..< ?k + length (cs @ ds)]"
    by (simp only: split map_append append_assoc)
  from c1 c2 c3 c4 c5 sf frame show ?thesis
    unfolding s appended_def by (simp only: prod.case)
qed

lemma same_function_env: "same_function b b' \<Longrightarrow> fb_env b' = fb_env b"
  by (simp add: same_function_def)

lemma appended_env: "appended s ps cs s' \<Longrightarrow> fb_env (fst s') = fb_env (fst s)"
  by (cases s, cases s') (simp add: appended_def same_function_def)

lemma appended_set:
  "appended s ps cs s' \<Longrightarrow> functionReferenceSet (fst s') = functionReferenceSet (fst s)"
  by (cases s, cases s') (simp add: appended_def same_function_def)

lemma appended_chain:
  "appended s ps cs s' \<Longrightarrow> builder_chain s' (ps @ [brk (snd s) ..< brk (snd s) + length cs])"
  by (cases s, cases s') (simp add: appended_def)

lemma addArgument_leaf:
  "convert c cache (fb_env (fst s)) a = Some (t, v) \<Longrightarrow> addArgument c cache a s = installArgument t v s"
  by (cases a)
    (auto simp add: getRawEnvironment_def addSymbol_def addNumber_int64_def addNumber_int32_def
      addNumber_double_def addExternalAddress_def getExternalAddressId_def
      getExternalAddressId_raw_def)

lemma convert_leaf: "convert c cache e a = Some tv \<Longrightarrow> leaves a = [a]"
  by (cases a) simp_all

lemma leaf_step:
  assumes "builder_chain s ps" "functionReferenceSet (fst s)"
    and "convertible c cache (fb_env (fst s)) [a]"
  shows "\<exists>s'. addArgument c cache a s = Some (Inr (), s')
      \<and> appended s ps (map (convert c cache (fb_env (fst s))) (leaves a)) s'"
proof -
  from assms(3) obtain t v where tv: "convert c cache (fb_env (fst s)) a = Some (t, v)"
    by (auto simp add: convertible_def)
  then have l: "leaves a = [a]" by (rule convert_leaf)
  obtain b m where s: "s = (b, m)" by (cases s)
  from installArgument_appends [of b m ps t v] assms(1,2) s
  obtain s' where "installArgument t v s = Some (Inr (), s')" "appended s ps [Some (t, v)] s'"
    by auto
  with tv l addArgument_leaf [OF tv] show ?thesis by simp
qed

lemma addArgument_appends_aux:
  "(\<forall>ps. builder_chain s ps \<longrightarrow> functionReferenceSet (fst s)
        \<longrightarrow> convertible c cache (fb_env (fst s)) (leaves a)
        \<longrightarrow> (\<exists>s'. addArgument c cache a s = Some (Inr (), s')
               \<and> appended s ps (map (convert c cache (fb_env (fst s))) (leaves a)) s'))"
  "(\<forall>ps. builder_chain s ps \<longrightarrow> functionReferenceSet (fst s)
        \<longrightarrow> convertible c cache (fb_env (fst s)) (concat (map leaves as))
        \<longrightarrow> (\<exists>s'. addArgument_each c cache as s = Some (Inr (), s')
               \<and> appended s ps (map (convert c cache (fb_env (fst s))) (concat (map leaves as))) s'))"
proof (induction c cache a s and c cache as s rule: addArgument_addArgument_each.induct)
  case (1 c cache v s)
  show ?case using leaf_step [of s _ c cache "Bool v"] by simp
next
  case (2 c cache v s)
  show ?case using leaf_step [of s _ c cache "Int64 v"] by simp
next
  case (3 c cache v s)
  show ?case using leaf_step [of s _ c cache "Int32 v"] by simp
next
  case (4 c cache v s)
  show ?case using leaf_step [of s _ c cache "Float32 v"] by simp
next
  case (5 c cache v s)
  show ?case using leaf_step [of s _ c cache "Double v"] by simp
next
  case (6 c cache str s)
  show ?case using leaf_step [of s _ c cache "CString str"] by simp
next
  case (7 c cache str s)
  show ?case using leaf_step [of s _ c cache "StdString str"] by simp
next
  case (8 c cache T v s)
  show ?case using leaf_step [of s _ c cache "Pointer T v"] by simp
next
  case (9 c cache list s)
  then show ?case by simp
next
  case (10 c cache list s)
  then show ?case by simp
next
  case (11 c cache list s)
  then show ?case by simp
next
  case (12 c cache list s)
  then show ?case by simp
next
  case (13 c cache s)
  show ?case by (simp add: appended_refl)
next
  case (14 c cache element rest s)
  show ?case
  proof (intro allI impI)
    fix ps
    assume h: "builder_chain s ps" "functionReferenceSet (fst s)"
      "convertible c cache (fb_env (fst s)) (concat (map leaves (element # rest)))"
    let ?e = "fb_env (fst s)"
    let ?cs = "map (convert c cache ?e) (leaves element)"
    from h(3) have c1: "convertible c cache ?e (leaves element)"
      and c2: "convertible c cache ?e (concat (map leaves rest))"
      by (auto simp add: convertible_def)
    from "14.IH"(1) h c1 obtain s' where s':
      "addArgument c cache element s = Some (Inr (), s')"
      "appended s ps ?cs s'"
      by blast
    let ?ps' = "ps @ [brk (snd s) ..< brk (snd s) + length ?cs]"
    from s'(2) have e': "fb_env (fst s') = ?e" by (rule appended_env)
    from s'(2) h(2) have set': "functionReferenceSet (fst s')" by (simp add: appended_set)
    from s'(2) have ch': "builder_chain s' ?ps'" by (rule appended_chain)
    from "14.IH"(2) [OF s'(1) refl refl] ch' set' c2 e' obtain s'' where s'':
      "addArgument_each c cache rest s' = Some (Inr (), s'')"
      "appended s' ?ps' (map (convert c cache ?e) (concat (map leaves rest))) s''"
      by auto
    from appended_trans [OF s'(2) s''(2)] s'(1) s''(1)
    show "\<exists>s'. addArgument_each c cache (element # rest) s = Some (Inr (), s')
        \<and> appended s ps (map (convert c cache ?e) (concat (map leaves (element # rest)))) s'"
      by simp
  qed
qed


lemma addArgument_each_append:
  "addArgument_each c cache (xs @ ys) s =
     (case addArgument_each c cache xs s of
        Some (Inr u, s') \<Rightarrow> addArgument_each c cache ys s'
      | other \<Rightarrow> other)"
  by (induction xs arbitrary: s) (auto split: option.splits prod.splits sum.splits)

lemma addArgument_each_single: "addArgument_each c cache [a] s = addArgument c cache a s"
  by (auto split: option.splits prod.splits sum.splits)

lemma addArgument_flattened_aux:
  "addArgument c cache a s = addArgument_each c cache (leaves a) s"
  "addArgument_each c cache as s = addArgument_each c cache (concat (map leaves as)) s"
proof (induction c cache a s and c cache as s rule: addArgument_addArgument_each.induct)
  case (14 c cache element rest s)
  show ?case
  proof (cases "addArgument c cache element s")
    case None
    with "14.IH"(1) show ?thesis by (simp add: addArgument_each_append)
  next
    case (Some r)
    obtain o' s' where r: "r = (o', s')" by (cases r)
    show ?thesis
    proof (cases o')
      case (Inl p)
      with Some r "14.IH"(1) show ?thesis by (simp add: addArgument_each_append)
    next
      case (Inr u)
      with Some r have e: "addArgument c cache element s = Some (Inr u, s')" by simp
      from "14.IH"(2) [OF e refl refl]
      have "addArgument_each c cache rest s' = addArgument_each c cache (concat (map leaves rest)) s'" .
      with e "14.IH"(1) show ?thesis by (simp add: addArgument_each_append)
    qed
  qed
qed (simp_all only: leaves.simps addArgument_each_single addArgument.simps(9-12) list.map
       concat.simps)

lemma sample_bound_reached:
  "setFunctionReference sample_clips ''g'' (FunctionBuilder (borrowed 5) sample_storage, sample_memory)
     = Some (Inr (), sample_bound)"
  by (simp add: setFunctionReference_def generateFunctionExpression_def sample_clips_def
      FunctionBuilder_def sample_bound_def c_str_def)

lemma setFunctionReference_bound:
  assumes "generateFunctionExpression c (fb_env b) func (fb_ref b) = (True, r)"
    and "argList r = nullptr" and "nullptr < brk m" and "\<forall>q. brk m \<le> q \<longrightarrow> nodes m q = None"
  shows "setFunctionReference c func (b, m)
           = Some (Inr (), b\<lparr>fb_ref := r, fb_function := func, functionReferenceSet := True\<rparr>, m)"
    and "builder_chain (b\<lparr>fb_ref := r, fb_function := func, functionReferenceSet := True\<rparr>, m) []"
  using assms by (simp_all add: setFunctionReference_def builder_chain_def constants_only_def)

lemma appended_result:
  "appended s ps cs s' \<Longrightarrow>
     builder_chain s' (ps @ [brk (snd s) ..< brk (snd s) + length cs])
     \<and> map (node_constant (snd s')) [brk (snd s) ..< brk (snd s) + length cs] = cs"
  by (cases s, cases s') (simp add: appended_def)

lemma leaves_are_leaves: "l \<in> set (leaves a) \<Longrightarrow> is_leaf l"
  by (induction a rule: leaves.induct) auto

lemma registered_leaf_convert:
  "is_leaf l \<Longrightarrow> registered cache e l \<Longrightarrow> convert c cache e l \<noteq> None"
  by (cases l) (simp_all add: getRawEnvironment_def)

lemma unregistered_pointer:
  "\<not> registered cache e l \<Longrightarrow> \<exists>T v. l = Pointer T v \<and> cache T (getRawEnvironment e) = None"
  by (cases l) simp_all

lemma addArgument_unregistered:
  "cache T (getRawEnvironment (fb_env (fst s))) = None \<Longrightarrow>
     addArgument c cache (Pointer T v) s = Some (Inl UnregisteredTypeError, s)"
  by (simp add: addExternalAddress_def getExternalAddressId_def getExternalAddressId_raw_def
      UnregisteredTypeError_def)

lemma addArgument_each_leaves_prefix:
  assumes "builder_chain s ps" and "functionReferenceSet (fst s)" and "\<forall>l \<in> set ls. is_leaf l"
  shows "\<exists>s'. addArgument_each c cache ls s
                = Some (if list_all (registered cache (fb_env (fst s))) ls
                        then Inr () else Inl UnregisteredTypeError, s')
            \<and> appended s ps (map (convert c cache (fb_env (fst s)))
                  (takeWhile (registered cache (fb_env (fst s))) ls)) s'"
  using assms
proof (induction ls arbitrary: s ps)
  case Nil
  then show ?case by (simp add: appended_refl)
next
  case (Cons l ls)
  let ?e = "fb_env (fst s)"
  from Cons.prems(3) have leaf: "is_leaf l" and rest: "\<forall>l \<in> set ls. is_leaf l" by simp_all
  show ?case
  proof (cases "registered cache ?e l")
    case False
    then obtain T v where l: "l = Pointer T v" "cache T (getRawEnvironment ?e) = None"
      by (auto dest: unregistered_pointer)
    from addArgument_unregistered [of cache T s c v] l
    have "addArgument_each c cache (l # ls) s = Some (Inl UnregisteredTypeError, s)"
      by simp
    with False appended_refl [OF Cons.prems(1)] show ?thesis by simp
  next
    case True
    with leaf have "convertible c cache ?e [l]"
      by (simp add: convertible_def registered_leaf_convert)
    from leaf_step [OF Cons.prems(1,2) this] obtain s1 where s1:
      "addArgument c cache l s = Some (Inr (), s1)"
      "appended s ps (map (convert c cache ?e) (leaves l)) s1"
      by blast
    from leaf have ll: "leaves l = [l]" by (cases l) simp_all
    let ?ps1 = "ps @ [brk (snd s) ..< brk (snd s) + length (map (convert c cache ?e) (leaves l))]"
    from s1(2) have e1: "fb_env (fst s1) = ?e" by (rule appended_env)
    from s1(2) have c1: "builder_chain s1 ?ps1" by (rule appended_chain)
    from s1(2) Cons.prems(2) have f1: "functionReferenceSet (fst s1)"
      by (simp add: appended_set)
    from Cons.IH [OF c1 f1 rest] e1 obtain s' where s':
      "addArgument_each c cache ls s1
         = Some (if list_all (registered cache ?e) ls then Inr () else Inl UnregisteredTypeError, s')"
      "appended s1 ?ps1 (map (convert c cache ?e) (takeWhile (registered cache ?e) ls)) s'"
      by auto
    from appended_trans [OF s1(2) s'(2)]
    have "appended s ps (map (convert c cache ?e) (takeWhile (registered cache ?e) (l # ls))) s'"
      using True ll by simp
    moreover from s1(1) s'(1) True
    have "addArgument_each c cache (l # ls) s
        = Some (if list_all (registered cache ?e) (l # ls) then Inr () else Inl UnregisteredTypeError, s')"
      by simp
    ultimately show ?thesis by blast
  qed
qed

lemma sample_first_argument:
  "addArgument sample_clips sample_cache (Int32 7) sample_bound = Some (Inr (), sample_one_argument)"
proof -
  have "install_order [1 \<mapsto> \<lparr>expr_type = INTEGER, expr_value = 207, argList = 0, nextArg = 0\<rparr>] 1
      = Some [1]"
    by (simp add: install_order.simps)
  then show ?thesis
    by (simp add: sample_bound_def sample_memory_def installArgument_def
        generateConstantExpression_def GenConstant_def installExpression_def
        ExpressionInstall_def addNumber_int32_def sample_clips_def borrowed_def
        sample_one_argument_def)
qed

text \<open>
  C3, as stated: in the FunctionSet state, after every sequence of \<open>addArgument\<close> calls
  the chain contains exactly the converted constants of the arguments, in order. It
  fails: on the sample builder, bound to \<^verbatim>\<open>g\<close> with an empty chain, the calls
  \<^verbatim>\<open>addArgument(int32_t(7))\<close>, \<^verbatim>\<open>addArgument(gadget)\<close>, \<^verbatim>\<open>addArgument(int32_t(8))\<close> with a
  pointer to an object of a host type that was never registered stop at the second
  call, which throws; the chain is left with the one node of the first call, and
  there is no node for the pointer nor for the integer 8.
\<close>

theorem addArgument_stops_at_unregistered_pointer:
  "functionReferenceSet (fst sample_bound)
   \<and> argList (fb_ref (fst sample_bound)) = nullptr
   \<and> addArgument_each sample_clips sample_cache [Int32 7, Pointer Gadget 9, Int32 8] sample_bound
       = Some (Inl UnregisteredTypeError, sample_one_argument)
   \<and> addArgument sample_clips sample_cache (Pointer Gadget 9) sample_one_argument
       = Some (Inl UnregisteredTypeError, sample_one_argument)
   \<and> chain (nodes (snd sample_one_argument)) (argList (fb_ref (fst sample_one_argument))) [1]
   \<and> map (node_constant (snd sample_one_argument)) [1, 2, 3] = [Some (INTEGER, 207), None, None]
   \<and> convert sample_clips sample_cache (fb_env (fst sample_bound)) (Int32 8) = Some (INTEGER, 208)"
proof -
  have p: "addArgument sample_clips sample_cache (Pointer Gadget 9) sample_one_argument
       = Some (Inl UnregisteredTypeError, sample_one_argument)"
    by (simp add: sample_one_argument_def addExternalAddress_def getExternalAddressId_def
        getExternalAddressId_raw_def getRawEnvironment_def sample_cache_def
        registerExternalAddressId_def registerExternalAddressId_raw_def emplace_def borrowed_def
        UnregisteredTypeError_def)
  have "addArgument_each sample_clips sample_cache [Int32 7, Pointer Gadget 9, Int32 8] sample_bound
       = Some (Inl UnregisteredTypeError, sample_one_argument)"
    by (simp only: addArgument_each.simps sample_first_argument p option.case
        prod.case sum.case)
  moreover have "chain (nodes (snd sample_one_argument)) (argList (fb_ref (fst sample_one_argument))) [1]"
    by (simp add: sample_one_argument_def)
  moreover have "map (node_constant (snd sample_one_argument)) [1, 2, 3]
      = [Some (INTEGER, 207), None, None]"
    by (simp add: sample_one_argument_def node_constant_def)
  moreover have "convert sample_clips sample_cache (fb_env (fst sample_bound)) (Int32 8)
      = Some (INTEGER, 208)"
    by (simp add: sample_clips_def sample_bound_def borrowed_def)
  moreover have "functionReferenceSet (fst sample_bound)"
    "argList (fb_ref (fst sample_bound)) = nullptr"
    by (simp_all add: sample_bound_def)
  ultimately show ?thesis using p by (intro conjI)
qed

text \<open>
  C3, amended: in the FunctionSet state, a sequence of \<open>addArgument\<close> calls on \<open>args\<close>
  runs over the flattened arguments (the scalars and pointers of \<open>args\<close> in iteration
  order, containers flattened recursively). When the host type of every pointer among
  them is registered for the engine instance of the builder, every call returns
  normally; otherwise the sequence ends at the first pointer whose host type is not
  registered, with the \<open>UnregisteredTypeError\<close> of the registry lookup and without a
  node for that pointer. In both cases the chain it leaves is the chain it found
  followed by one new node for each flattened argument before that point, in order,
  holding the converted constants; the nodes already in the chain keep their type and
  value. An \<open>addArgument\<close> on a list, vector, initializer list or pack is the sequence of
  \<open>addArgument\<close> calls on its elements, and the sequence of calls on \<open>args\<close> is the
  sequence of calls on the flattened arguments.
\<close>

theorem addArgument_appends_in_order:
  assumes "builder_chain s ps" and "functionReferenceSet (fst s)"
  shows "(\<exists>s'. addArgument_each c cache args s
                 = Some (if list_all (registered cache (fb_env (fst s))) (concat (map leaves args))
                         then Inr () else Inl UnregisteredTypeError, s')
             \<and> appended s ps (map (convert c cache (fb_env (fst s)))
                   (takeWhile (registered cache (fb_env (fst s))) (concat (map leaves args)))) s')
       \<and> addArgument c cache (StdList args) s = addArgument_each c cache args s
       \<and> addArgument c cache (StdVector args) s = addArgument_each c cache args s
       \<and> addArgument c cache (InitializerList args) s = addArgument_each c cache args s
       \<and> addArgument c cache (Pack args) s = addArgument_each c cache args s
       \<and> addArgument_each c cache args s = addArgument_each c cache (concat (map leaves args)) s"
proof -
  have "\<forall>l \<in> set (concat (map leaves args)). is_leaf l"
    by (auto dest: leaves_are_leaves)
  from addArgument_each_leaves_prefix [OF assms this, of c cache]
  have "\<exists>s'. addArgument_each c cache args s
                 = Some (if list_all (registered cache (fb_env (fst s))) (concat (map leaves args))
                         then Inr () else Inl UnregisteredTypeError, s')
             \<and> appended s ps (map (convert c cache (fb_env (fst s)))
                   (takeWhile (registered cache (fb_env (fst s))) (concat (map leaves args)))) s'"
    by (simp only: addArgument_flattened_aux(2) [symmetric])
  moreover have "addArgument_each c cache args s = addArgument_each c cache (concat (map leaves args)) s"
    by (rule addArgument_flattened_aux(2))
  ultimately show ?thesis by simp
qed

theorem addArgument_appends_in_order_witness:
  "builder_chain sample_bound []
   \<and> functionReferenceSet (fst sample_bound)
   \<and> (\<exists>s'. addArgument_each sample_clips sample_cache sample_args sample_bound = Some (Inr (), s')
          \<and> builder_chain s' [1, 2, 3, 4]
          \<and> map (node_constant (snd s')) [1, 2, 3, 4]
              = [Some (EXTERNAL_ADDRESS, 412), Some (INTEGER, 455), Some (INTEGER, 207),
                 Some (SYMBOL, 2)])
   \<and> (\<exists>s'. addArgument_each sample_clips sample_cache [Int32 7, Pointer Gadget 9, Int32 8] sample_bound
              = Some (Inl UnregisteredTypeError, s')
          \<and> builder_chain s' [1]
          \<and> map (node_constant (snd s')) [1] = [Some (INTEGER, 207)])"
proof -
  have h1: "builder_chain sample_bound []"
    by (simp add: builder_chain_def sample_bound_def sample_memory_def constants_only_def)
  have h2: "functionReferenceSet (fst sample_bound)"
    by (simp add: sample_bound_def)
  have reg: "sample_cache Widget (getRawEnvironment (fb_env (fst sample_bound))) = Some 3"
    "sample_cache Gadget (getRawEnvironment (fb_env (fst sample_bound))) = None"
    by (simp_all add: sample_cache_def sample_bound_def borrowed_def registerExternalAddressId_def
        registerExternalAddressId_raw_def getRawEnvironment_def emplace_def)
  have b: "brk (snd sample_bound) = 1"
    by (simp add: sample_bound_def sample_memory_def)
  have u: "[1 ..< 1 + 4] = [1, 2, 3, 4::nat]" "[1 ..< 1 + 1] = [1::nat]"
    by (simp_all add: upt_rec)
  have all: "list_all (registered sample_cache (fb_env (fst sample_bound)))
      (concat (map leaves sample_args))"
    by (simp add: sample_args_def reg)
  then have tw: "takeWhile (registered sample_cache (fb_env (fst sample_bound)))
      (concat (map leaves sample_args)) = concat (map leaves sample_args)"
    by (simp add: list_all_iff)
  have cs: "map (convert sample_clips sample_cache (fb_env (fst sample_bound)))
      (concat (map leaves sample_args))
    = [Some (EXTERNAL_ADDRESS, 412), Some (INTEGER, 455), Some (INTEGER, 207), Some (SYMBOL, 2)]"
    using reg
    by (simp add: sample_args_def sample_bound_def borrowed_def getRawEnvironment_def
        sample_clips_def)
  have "\<exists>s'. addArgument_each sample_clips sample_cache sample_args sample_bound
              = Some (if list_all (registered sample_cache (fb_env (fst sample_bound)))
                           (concat (map leaves sample_args))
                      then Inr () else Inl UnregisteredTypeError, s')
          \<and> appended sample_bound []
               (map (convert sample_clips sample_cache (fb_env (fst sample_bound)))
                  (takeWhile (registered sample_cache (fb_env (fst sample_bound)))
                     (concat (map leaves sample_args)))) s'"
    using addArgument_appends_in_order [OF h1 h2, of sample_clips sample_cache sample_args]
    by (rule conjunct1)
  then have "\<exists>s'. addArgument_each sample_clips sample_cache sample_args sample_bound
              = Some (Inr (), s')
          \<and> appended sample_bound []
               (map (convert sample_clips sample_cache (fb_env (fst sample_bound)))
                  (takeWhile (registered sample_cache (fb_env (fst sample_bound)))
                     (concat (map leaves sample_args)))) s'"
    by (simp only: all if_True)
  then obtain s' where
    s': "addArgument_each sample_clips sample_cache sample_args sample_bound = Some (Inr (), s')"
    "appended sample_bound [] (map (convert sample_clips sample_cache (fb_env (fst sample_bound)))
      (takeWhile (registered sample_cache (fb_env (fst sample_bound)))
         (concat (map leaves sample_args)))) s'"
    by blast
  have "length [Some (EXTERNAL_ADDRESS, 412), Some (INTEGER, 455), Some (INTEGER, 207),
      Some (SYMBOL, 2::addr)] = 4"
    by simp
  with appended_result [OF s'(2)]
  have "builder_chain s' ([] @ [1 ..< 1 + 4])
      \<and> map (node_constant (snd s')) [1 ..< 1 + 4]
          = [Some (EXTERNAL_ADDRESS, 412), Some (INTEGER, 455), Some (INTEGER, 207), Some (SYMBOL, 2)]"
    by (simp only: tw cs b)
  then have "builder_chain s' [1, 2, 3, 4]
      \<and> map (node_constant (snd s')) [1, 2, 3, 4]
          = [Some (EXTERNAL_ADDRESS, 412), Some (INTEGER, 455), Some (INTEGER, 207), Some (SYMBOL, 2)]"
    by (simp only: u append_Nil)
  then have ok: "\<exists>s'. addArgument_each sample_clips sample_cache sample_args sample_bound
              = Some (Inr (), s')
          \<and> builder_chain s' [1, 2, 3, 4]
          \<and> map (node_constant (snd s')) [1, 2, 3, 4]
              = [Some (EXTERNAL_ADDRESS, 412), Some (INTEGER, 455), Some (INTEGER, 207),
                 Some (SYMBOL, 2)]"
    using s'(1) by (intro exI [where x = s'] conjI) (rule s'(1), simp_all)
  have nall: "\<not> list_all (registered sample_cache (fb_env (fst sample_bound)))
      (concat (map leaves [Int32 7, Pointer Gadget 9, Int32 8]))"
    by (simp add: reg)
  have tw2: "takeWhile (registered sample_cache (fb_env (fst sample_bound)))
      (concat (map leaves [Int32 7, Pointer Gadget 9, Int32 8])) = [Int32 7]"
    by (simp add: reg)
  have cs2: "map (convert sample_clips sample_cache (fb_env (fst sample_bound))) [Int32 7]
      = [Some (INTEGER, 207)]"
    by (simp add: sample_bound_def borrowed_def sample_clips_def)
  have "\<exists>s'. addArgument_each sample_clips sample_cache [Int32 7, Pointer Gadget 9, Int32 8]
                sample_bound
              = Some (if list_all (registered sample_cache (fb_env (fst sample_bound)))
                           (concat (map leaves [Int32 7, Pointer Gadget 9, Int32 8]))
                      then Inr () else Inl UnregisteredTypeError, s')
          \<and> appended sample_bound []
               (map (convert sample_clips sample_cache (fb_env (fst sample_bound)))
                  (takeWhile (registered sample_cache (fb_env (fst sample_bound)))
                     (concat (map leaves [Int32 7, Pointer Gadget 9, Int32 8])))) s'"
    using addArgument_appends_in_order [OF h1 h2, of sample_clips sample_cache
        "[Int32 7, Pointer Gadget 9, Int32 8]"]
    by (rule conjunct1)
  then have "\<exists>s'. addArgument_each sample_clips sample_cache [Int32 7, Pointer Gadget 9, Int32 8]
                sample_bound
              = Some (Inl UnregisteredTypeError, s')
          \<and> appended sample_bound []
               (map (convert sample_clips sample_cache (fb_env (fst sample_bound)))
                  (takeWhile (registered sample_cache (fb_env (fst sample_bound)))
                     (concat (map leaves [Int32 7, Pointer Gadget 9, Int32 8])))) s'"
    by (simp only: nall if_False)
  then obtain t' where
    t': "addArgument_each sample_clips sample_cache [Int32 7, Pointer Gadget 9, Int32 8] sample_bound
           = Some (Inl UnregisteredTypeError, t')"
    "appended sample_bound [] (map (convert sample_clips sample_cache (fb_env (fst sample_bound)))
      (takeWhile (registered sample_cache (fb_env (fst sample_bound)))
         (concat (map leaves [Int32 7, Pointer Gadget 9, Int32 8])))) t'"
    by blast
  have "length [Some (INTEGER, 207::addr)] = 1"
    by simp
  with appended_result [OF t'(2)]
  have "builder_chain t' ([] @ [1 ..< 1 + 1])
      \<and> map (node_constant (snd t')) [1 ..< 1 + 1] = [Some (INTEGER, 207)]"
    by (simp only: tw2 cs2 b)
  then have "builder_chain t' [1] \<and> map (node_constant (snd t')) [1] = [Some (INTEGER, 207)]"
    by (simp only: u append_Nil)
  then have stop: "\<exists>s'. addArgument_each sample_clips sample_cache
              [Int32 7, Pointer Gadget 9, Int32 8] sample_bound
              = Some (Inl UnregisteredTypeError, s')
          \<and> builder_chain s' [1]
          \<and> map (node_constant (snd s')) [1] = [Some (INTEGER, 207)]"
    using t'(1) by (intro exI [where x = t'] conjI) (rule t'(1), simp_all)
  from h1 h2 ok stop show ?thesis by (intro conjI)
qed

subsection \<open>The Unbound state\<close>

lemma installArgument_unbound:
  "\<not> functionReferenceSet (fst s) \<Longrightarrow> installArgument t v s = Some (Inl BuilderMisuseError_argument, s)"
  by (cases s) (simp add: installArgument_def BuilderMisuseError_argument_def)

lemma addArgument_leaf_unbound:
  assumes "\<not> functionReferenceSet (fst s)" and "is_leaf l"
  shows "addArgument c cache l s = Some (unbound_outcome cache (fb_env (fst s)) (l # rest), s)"
  using assms
  by (cases l)
    (simp_all add: installArgument_unbound addExternalAddress_def getExternalAddressId_def
      getExternalAddressId_raw_def UnregisteredTypeError_def split: option.split)

lemma addArgument_each_unbound:
  assumes "\<not> functionReferenceSet (fst s)" and "\<forall>l \<in> set ls. is_leaf l"
  shows "addArgument_each c cache ls s = Some (unbound_outcome cache (fb_env (fst s)) ls, s)"
proof (cases ls)
  case Nil
  then show ?thesis by simp
next
  case (Cons l rest)
  with assms(2) have "is_leaf l" by simp
  from addArgument_leaf_unbound [OF assms(1) this, of c cache rest]
  have a: "addArgument c cache l s = Some (unbound_outcome cache (fb_env (fst s)) (l # rest), s)" .
  have "unbound_outcome cache (fb_env (fst s)) (l # rest) \<noteq> Inr ()"
    by (cases l) (simp_all split: option.split)
  then obtain p where "unbound_outcome cache (fb_env (fst s)) (l # rest) = Inl p"
    by (cases "unbound_outcome cache (fb_env (fst s)) (l # rest)") auto
  with a Cons show ?thesis by simp
qed

lemma addArgument_unbound:
  assumes "\<not> functionReferenceSet (fst s)"
  shows "addArgument c cache a s = Some (unbound_outcome cache (fb_env (fst s)) (leaves a), s)"
proof -
  have "addArgument c cache a s = addArgument_each c cache (leaves a) s"
    by (rule addArgument_flattened_aux(1))
  also have "\<dots> = Some (unbound_outcome cache (fb_env (fst s)) (leaves a), s)"
    by (rule addArgument_each_unbound [OF assms]) (simp add: leaves_are_leaves)
  finally show ?thesis .
qed

lemma invoke_unbound:
  "\<not> functionReferenceSet (fst s) \<Longrightarrow> invoke c x s = Some (Inl BuilderMisuseError_invoke, s)"
  by (cases s) (simp add: invoke_def BuilderMisuseError_invoke_def)

lemma setFunctionReference_unknown:
  assumes "\<not> fst (generateFunctionExpression c (fb_env (fst s)) name (fb_ref (fst s)))"
  shows "setFunctionReference c name s
           = Some (Inl (UnknownFunctionError name),
                   (fst s)\<lparr>fb_ref := snd (generateFunctionExpression c (fb_env (fst s)) name (fb_ref (fst s)))\<rparr>,
                   snd s)"
proof -
  obtain b m where s: "s = (b, m)" by (cases s)
  obtain found r where "generateFunctionExpression c (fb_env b) name (fb_ref b) = (found, r)"
    by (cases "generateFunctionExpression c (fb_env b) name (fb_ref b)")
  with assms s show ?thesis
    by (simp add: setFunctionReference_def UnknownFunctionError_def)
qed

text \<open>
  C2, as stated: in the Unbound state every call to \<open>addArgument\<close> fails with a
  \<open>BuilderMisuseError\<close>. It fails: adding an empty vector returns normally, and adding
  a pointer to a host object whose type is not registered fails with the error of the
  registry lookup.
\<close>

theorem unbound_addArgument_not_always_misuse:
  "\<not> functionReferenceSet (fst sample_unbound)
   \<and> addArgument sample_clips sample_cache (StdVector []) sample_unbound
       = Some (Inr (), sample_unbound)
   \<and> addArgument sample_clips sample_cache (Pointer Gadget 9) sample_unbound
       = Some (Inl UnregisteredTypeError, sample_unbound)
   \<and> UnregisteredTypeError \<noteq> BuilderMisuseError_argument
   \<and> UnregisteredTypeError \<noteq> BuilderMisuseError_invoke"
  by (simp add: sample_unbound_def FunctionBuilder_def addExternalAddress_def
      getExternalAddressId_def getExternalAddressId_raw_def getRawEnvironment_def
      sample_cache_def registerExternalAddressId_def registerExternalAddressId_raw_def
      emplace_def borrowed_def UnregisteredTypeError_def BuilderMisuseError_argument_def
      BuilderMisuseError_invoke_def)

text \<open>
  C2, amended: in the Unbound state, \<open>installArgument\<close> fails with a
  \<open>BuilderMisuseError\<close> and so does \<open>addArgument\<close> on a boolean, an integer, a
  floating-point number, a string (\<^verbatim>\<open>const char*\<close> or \<^verbatim>\<open>std::string\<close>), or a pointer whose
  host type is registered; \<open>addArgument\<close> on a pointer whose host type is not
  registered fails with \<open>UnregisteredTypeError\<close>. The outcome of \<open>addArgument\<close> on a
  list, vector, initializer list or pack is that of \<open>addArgument\<close> on the first scalar
  or pointer reached when its elements are flattened recursively in iteration order
  (\<open>leaves\<close>): the first flattened element decides, not the first element, and the call
  returns normally when the flattening is empty. So a list of an empty vector and a
  vector holding an integer fails with a \<open>BuilderMisuseError\<close>, although
  \<open>addArgument\<close> on its first element returns normally. \<open>invoke\<close> fails with a
  \<open>BuilderMisuseError\<close>. None of these calls changes the builder or the expression
  memory, and nothing is evaluated. \<open>setFunctionReference\<close> with a name the engine does
  not resolve fails with an \<open>UnknownFunctionError\<close> naming the function and leaves the
  builder Unbound, with its function name unchanged.
\<close>

theorem unbound_builder_misuse:
  assumes "\<not> functionReferenceSet (fst s)"
  shows "installArgument t v s = Some (Inl BuilderMisuseError_argument, s)
       \<and> addArgument c cache a s = Some (unbound_outcome cache (fb_env (fst s)) (leaves a), s)
       \<and> invoke c x s = Some (Inl BuilderMisuseError_invoke, s)
       \<and> (\<not> fst (generateFunctionExpression c (fb_env (fst s)) name (fb_ref (fst s))) \<longrightarrow>
            (\<exists>b'. setFunctionReference c name s = Some (Inl (UnknownFunctionError name), b', snd s)
                \<and> \<not> functionReferenceSet b' \<and> fb_function b' = fb_function (fst s)
                \<and> sublist name (message (UnknownFunctionError name))))"
proof -
  have "sublist name (''Function '' @ name @ '' does not exist!!!!'')"
    by (rule sublist_middle)
  then have "sublist name (message (UnknownFunctionError name))"
    by (simp add: UnknownFunctionError_def)
  with assms show ?thesis
    by (simp add: installArgument_unbound addArgument_unbound invoke_unbound
        setFunctionReference_unknown)
qed

theorem unbound_builder_misuse_witness:
  "\<not> functionReferenceSet (fst sample_unbound)
   \<and> installArgument INTEGER 207 sample_unbound = Some (Inl BuilderMisuseError_argument, sample_unbound)
   \<and> addArgument sample_clips sample_cache (StdList [StdVector [], StdVector [Int32 7, Int32 8]])
         sample_unbound
       = Some (Inl BuilderMisuseError_argument, sample_unbound)
   \<and> addArgument sample_clips sample_cache (StdList [StdVector [], StdVector []]) sample_unbound
       = Some (Inr (), sample_unbound)
   \<and> addArgument sample_clips sample_cache (Pointer Widget 9) sample_unbound
       = Some (Inl BuilderMisuseError_argument, sample_unbound)
   \<and> invoke sample_clips sample_cxx sample_unbound = Some (Inl BuilderMisuseError_invoke, sample_unbound)
   \<and> \<not> fst (generateFunctionExpression sample_clips (fb_env (fst sample_unbound)) ''nope''
             (fb_ref (fst sample_unbound)))
   \<and> (\<exists>b'. setFunctionReference sample_clips ''nope'' sample_unbound
              = Some (Inl (Problem ''Function nope does not exist!!!!''), b', snd sample_unbound)
          \<and> \<not> functionReferenceSet b')"
proof -
  have h: "\<not> functionReferenceSet (fst sample_unbound)"
    by (simp add: sample_unbound_def FunctionBuilder_def)
  have n: "\<not> fst (generateFunctionExpression sample_clips (fb_env (fst sample_unbound)) ''nope''
             (fb_ref (fst sample_unbound)))"
    by (simp add: generateFunctionExpression_def sample_clips_def c_str_def)
  have r: "cache_registered = Some 3" if "cache_registered = sample_cache Widget (getRawEnvironment (fb_env (fst sample_unbound)))"
    for cache_registered
    using that by (simp add: sample_cache_def registerExternalAddressId_def
        registerExternalAddressId_raw_def emplace_def getRawEnvironment_def borrowed_def
        sample_unbound_def FunctionBuilder_def)
  from unbound_builder_misuse [OF h, of INTEGER 207 sample_clips sample_cache
      "StdList [StdVector [], StdVector [Int32 7, Int32 8]]" sample_cxx "''nope''"] n
  have a: "installArgument INTEGER 207 sample_unbound = Some (Inl BuilderMisuseError_argument, sample_unbound)"
    "addArgument sample_clips sample_cache (StdList [StdVector [], StdVector [Int32 7, Int32 8]])
         sample_unbound
       = Some (Inl BuilderMisuseError_argument, sample_unbound)"
    "invoke sample_clips sample_cxx sample_unbound = Some (Inl BuilderMisuseError_invoke, sample_unbound)"
    "\<exists>b'. setFunctionReference sample_clips ''nope'' sample_unbound
              = Some (Inl (Problem ''Function nope does not exist!!!!''), b', snd sample_unbound)
          \<and> \<not> functionReferenceSet b'"
    by (auto simp add: UnknownFunctionError_def)
  from unbound_builder_misuse [OF h, of INTEGER 207 sample_clips sample_cache
      "Pointer Widget 9" sample_cxx "''nope''"] r [OF refl]
  have b: "addArgument sample_clips sample_cache (Pointer Widget 9) sample_unbound
       = Some (Inl BuilderMisuseError_argument, sample_unbound)"
    by simp
  from unbound_builder_misuse [OF h, of INTEGER 207 sample_clips sample_cache
      "StdList [StdVector [], StdVector []]" sample_cxx "''nope''"]
  have e: "addArgument sample_clips sample_cache (StdList [StdVector [], StdVector []]) sample_unbound
       = Some (Inr (), sample_unbound)"
    by simp
  from h n a b e show ?thesis by (intro conjI)
qed

subsection \<open>Teardown\<close>

lemma destroy_releases_chain:
  assumes "builder_chain (b, m) ps" and "nextArg (fb_ref b) = nullptr"
  shows "destroy_FunctionBuilder (b, m)
     = Some (b\<lparr>fb_ref := (fb_ref b)\<lparr>argList := nullptr\<rparr>, curr := nullptr\<rparr>,
             m\<lparr>nodes := (\<lambda>q. if q \<in> set ps then None else nodes m q),
               events := events m @ DeinstalledReference # map Deinstalled ps @ map Reclaimed ps\<rparr>)"
proof -
  from assms(1) have ch: "chain (nodes m) (argList (fb_ref b)) ps"
    and co: "constants_only (nodes m) ps"
    by (simp_all add: builder_chain_def)
  have i: "install_order (nodes m) (argList (fb_ref b)) = Some ps"
    by (rule install_order_chain [OF ch co])
  have r: "reclaim_order (nodes m) (argList (fb_ref b)) = Some ps"
    by (rule reclaim_order_chain [OF ch co])
  have z: "install_order (nodes m) nullptr = Some []"
    by (simp add: install_order.simps)
  from i r z assms(2) show ?thesis
    by (simp add: destroy_FunctionBuilder_def deinstallExpression_def ExpressionDeinstall_def
        reclaimExpressionList_def ReturnExpression_def cong: if_cong)
qed

text \<open>
  C1 asks of every builder, on every exit path after its construction, that the
  destructor leaves no installs and no releases that are not the builder's own. A
  builder on which \<open>setFunctionReference\<close> was never called still holds in \<open>_ref\<close>
  what its storage held before. Here that storage points at a node somebody else
  installed: \<open>invoke\<close> throws the misuse error and changes nothing, and the destructor
  then deinstalls and reclaims that node, which the builder never installed. With
  storage that points at no node, the walk of the destructor has no defined result.
\<close>

theorem unbound_teardown_releases_foreign_node:
  "invoke sample_clips sample_cxx (FunctionBuilder (borrowed 5) sample_stale, sample_foreign)
     = Some (Inl BuilderMisuseError_invoke, FunctionBuilder (borrowed 5) sample_stale, sample_foreign)
   \<and> map_option (\<lambda>(b, m). (nodes m 7, events m))
        (destroy_FunctionBuilder (FunctionBuilder (borrowed 5) sample_stale, sample_foreign))
     = Some (None, [Installed 7, DeinstalledReference, Deinstalled 7, Reclaimed 7])
   \<and> destroy_FunctionBuilder (FunctionBuilder (borrowed 5) (sample_stale\<lparr>argList := 9\<rparr>), sample_foreign)
     = None"
proof -
  have 1: "invoke sample_clips sample_cxx (FunctionBuilder (borrowed 5) sample_stale, sample_foreign)
     = Some (Inl BuilderMisuseError_invoke, FunctionBuilder (borrowed 5) sample_stale, sample_foreign)"
    by (simp add: invoke_def FunctionBuilder_def BuilderMisuseError_invoke_def)
  have i7: "install_order (nodes sample_foreign) 7 = Some [7]"
    by (simp add: install_order.simps sample_foreign_def)
  have r7: "reclaim_order (nodes sample_foreign) 7 = Some [7]"
    by (simp add: reclaim_order.simps sample_foreign_def)
  have i0: "install_order (nodes sample_foreign) 0 = Some []"
    by (simp add: install_order.simps)
  have i9: "install_order (nodes sample_foreign) 9 = None"
    by (simp add: install_order.simps sample_foreign_def)
  from i7 r7 i0 have 2: "map_option (\<lambda>(b, m). (nodes m 7, events m))
        (destroy_FunctionBuilder (FunctionBuilder (borrowed 5) sample_stale, sample_foreign))
     = Some (None, [Installed 7, DeinstalledReference, Deinstalled 7, Reclaimed 7])"
    by (simp add: destroy_FunctionBuilder_def deinstallExpression_def ExpressionDeinstall_def
        reclaimExpressionList_def ReturnExpression_def FunctionBuilder_def sample_stale_def)
      (simp add: sample_foreign_def)
  from i9 have 3: "destroy_FunctionBuilder
       (FunctionBuilder (borrowed 5) (sample_stale\<lparr>argList := 9\<rparr>), sample_foreign) = None"
    by (simp add: destroy_FunctionBuilder_def deinstallExpression_def ExpressionDeinstall_def
        FunctionBuilder_def sample_stale_def)
  from 1 2 3 show ?thesis by (intro conjI)
qed


lemma unconvertible_leaf:
  "is_leaf l \<Longrightarrow> convert c cache e l = None \<Longrightarrow> \<exists>T v. l = Pointer T v \<and> cache T (env e) = None"
  by (cases l) simp_all

lemma addArgument_each_leaves_any:
  assumes "builder_chain s ps" and "functionReferenceSet (fst s)" and "\<forall>l \<in> set ls. is_leaf l"
  shows "\<exists>r s' cs. addArgument_each c cache ls s = Some (r, s') \<and> appended s ps cs s'"
  using assms
proof (induction ls arbitrary: s ps)
  case Nil
  then show ?case by (auto intro: appended_refl)
next
  case (Cons l ls)
  let ?e = "fb_env (fst s)"
  from Cons.prems(3) have leaf: "is_leaf l" and rest: "\<forall>l \<in> set ls. is_leaf l" by simp_all
  show ?case
  proof (cases "convert c cache ?e l")
    case None
    with leaf obtain T v where l: "l = Pointer T v" "cache T (env ?e) = None"
      by (auto dest: unconvertible_leaf)
    then have "addArgument c cache l s = Some (Inl UnregisteredTypeError, s)"
      by (simp add: addExternalAddress_def getExternalAddressId_def getExternalAddressId_raw_def
          getRawEnvironment_def UnregisteredTypeError_def)
    then have "addArgument_each c cache (l # ls) s = Some (Inl UnregisteredTypeError, s)"
      by simp
    with appended_refl [OF Cons.prems(1)] show ?thesis by blast
  next
    case (Some tv)
    then have "convertible c cache ?e [l]" by (simp add: convertible_def)
    from leaf_step [OF Cons.prems(1,2) this] obtain s1 where s1:
      "addArgument c cache l s = Some (Inr (), s1)"
      "appended s ps (map (convert c cache ?e) (leaves l)) s1"
      by blast
    let ?cs = "map (convert c cache ?e) (leaves l)"
    let ?ps1 = "ps @ [brk (snd s) ..< brk (snd s) + length ?cs]"
    from s1(2) have "builder_chain s1 ?ps1" by (rule appended_chain)
    moreover from s1(2) Cons.prems(2) have "functionReferenceSet (fst s1)"
      by (simp add: appended_set)
    ultimately obtain r s' cs' where r:
      "addArgument_each c cache ls s1 = Some (r, s')" "appended s1 ?ps1 cs' s'"
      using Cons.IH [OF _ _ rest] by blast
    from appended_trans [OF s1(2) r(2)] have "appended s ps (?cs @ cs') s'" .
    moreover from s1(1) r(1) have "addArgument_each c cache (l # ls) s = Some (r, s')"
      by simp
    ultimately show ?thesis by blast
  qed
qed

lemma addArgument_each_any:
  assumes "builder_chain s ps" and "functionReferenceSet (fst s)"
  shows "\<exists>r s' cs. addArgument_each c cache args s = Some (r, s') \<and> appended s ps cs s'"
proof -
  have "\<forall>l \<in> set (concat (map leaves args)). is_leaf l"
    by (auto dest: leaves_are_leaves)
  from addArgument_each_leaves_any [OF assms this, of c cache]
  show ?thesis by (simp only: addArgument_flattened_aux(2) [symmetric])
qed

lemma invoke_bound_returns:
  assumes "builder_chain (b, m) ps" and "functionReferenceSet b"
  shows "\<exists>outcome. invoke c x (b, m) = Some (outcome, b, m\<lparr>events := events m @ [Evaluated]\<rparr>)"
proof -
  from assms(1) have ch: "chain (nodes m) (argList (fb_ref b)) ps"
    by (simp add: builder_chain_def)
  obtain err ret where e: "EvaluateExpression c (env (fb_env b)) (nodes m) (fb_ref b) = (err, ret)"
    by (cases "EvaluateExpression c (env (fb_env b)) (nodes m) (fb_ref b)")
  have ev: "evaluateExpression c (fb_env b) (fb_ref b) m = (\<not> err, ret, m\<lparr>events := events m @ [Evaluated]\<rparr>)"
    by (simp add: evaluateExpression_def e)
  have n: "nodes (m\<lparr>events := events m @ [Evaluated]\<rparr>) = nodes m"
    by simp
  from assms(2) show ?thesis
    unfolding invoke_def prod.case ev n render_args_chain [OF ch]
    by (cases err) simp_all
qed

lemma builder_chain_events:
  "builder_chain (b, m) ps \<Longrightarrow> builder_chain (b, m\<lparr>events := ev\<rparr>) ps"
  by (simp add: builder_chain_def)

text \<open>
  The build-evaluate cycle of the library itself, \<open>buildAndExecuteFunction\<close>, on an
  engine whose \<open>GetFunctionReference\<close> leaves a reference without arguments and
  without successor, found or not: whatever happens (unknown function, an argument
  that throws, an evaluation error, a normal return), the call returns with the
  expression memory holding the nodes it held before, and what it recorded is: one
  installation for each node the builder made, in order; the evaluation when it was
  reached; the release of the function reference; one deinstallation of each of
  these nodes; and only then the reclaiming of each of them.
\<close>

lemma buildAndExecuteFunction_balanced:
  assumes fresh: "nullptr < brk m" "\<forall>q. brk m \<le> q \<longrightarrow> nodes m q = None"
    and ref: "argList (snd (generateFunctionExpression c e function storage)) = nullptr"
      "nextArg (snd (generateFunctionExpression c e function storage)) = nullptr"
  shows "\<exists>outcome m' k ev.
           buildAndExecuteFunction c x cache e storage function args m = Some (outcome, m')
         \<and> nodes m' = nodes m
         \<and> (ev = [] \<or> ev = [Evaluated])
         \<and> events m' = events m @ map Installed [brk m ..< brk m + k] @ ev
              @ DeinstalledReference # map Deinstalled [brk m ..< brk m + k]
              @ map Reclaimed [brk m ..< brk m + k]"
proof -
  let ?b0 = "FunctionBuilder e storage"
  obtain found r where g: "generateFunctionExpression c e function storage = (found, r)"
    by (cases "generateFunctionExpression c e function storage")
  with ref have r: "argList r = nullptr" "nextArg r = nullptr" by simp_all
  have env0: "fb_env ?b0 = e" "fb_ref ?b0 = storage" by (simp_all add: FunctionBuilder_def)
  have I: ?thesis
    if "buildAndExecuteFunction c x cache e storage function args m = Some (outcome, m')"
      and "nodes m' = nodes m" and "ev = [] \<or> ev = [Evaluated]"
      and "events m' = events m @ map Installed [brk m ..< brk m + k] @ ev
              @ DeinstalledReference # map Deinstalled [brk m ..< brk m + k]
              @ map Reclaimed [brk m ..< brk m + k]"
    for outcome m' k ev
    using that by blast
  show ?thesis
  proof (cases found)
    case False
    let ?b1 = "?b0\<lparr>fb_ref := r\<rparr>"
    from False g have set: "setFunctionReference c function (?b0, m) = Some (Inl (Problem (''Function '' @ function @ '' does not exist!!!!'')), ?b1, m)"
      by (simp add: setFunctionReference_def env0)
    from fresh r have "builder_chain (?b1, m) []"
      by (simp add: builder_chain_def constants_only_def)
    from destroy_releases_chain [OF this] r
    have "destroy_FunctionBuilder (?b1, m)
        = Some (?b1\<lparr>fb_ref := (fb_ref ?b1)\<lparr>argList := nullptr\<rparr>, curr := nullptr\<rparr>,
                m\<lparr>nodes := (\<lambda>q. if q \<in> set [] then None else nodes m q),
                  events := events m @ DeinstalledReference # map Deinstalled [] @ map Reclaimed []\<rparr>)"
      by simp
    with set have "buildAndExecuteFunction c x cache e storage function args m
        = Some (Inl (Problem (''Function '' @ function @ '' does not exist!!!!'')),
                m\<lparr>nodes := (\<lambda>q. nodes m q), events := events m @ [DeinstalledReference]\<rparr>)"
      by (simp add: buildAndExecuteFunction_def)
    then show ?thesis
      by (rule I [where k = 0 and ev = "[]"]) simp_all
  next
    case True
    let ?b1 = "?b0\<lparr>fb_ref := r, fb_function := function, functionReferenceSet := True\<rparr>"
    from True g have set: "setFunctionReference c function (?b0, m) = Some (Inr (), ?b1, m)"
      by (simp add: setFunctionReference_def env0)
    from fresh r have c1: "builder_chain (?b1, m) []"
      by (simp add: builder_chain_def constants_only_def)
    have "functionReferenceSet (fst (?b1, m))" by simp
    from addArgument_each_any [OF c1 this, of c cache args] obtain res s2 cs where a:
      "addArgument_each c cache args (?b1, m) = Some (res, s2)" "appended (?b1, m) [] cs s2"
      by blast
    obtain b2 m2 where s2: "s2 = (b2, m2)" by (cases s2)
    let ?k = "length cs"
    let ?new = "[brk m ..< brk m + ?k]"
    from a(2) s2 have c2: "builder_chain (b2, m2) ?new"
      and ev2: "events m2 = events m @ map Installed ?new"
      and sf: "same_function ?b1 b2"
      and frame: "\<forall>q. q < brk m \<longrightarrow> nodes m2 q = nodes m q"
      by (simp_all add: appended_def)
    from sf r have n2: "nextArg (fb_ref b2) = nullptr" and set2: "functionReferenceSet b2"
      by (auto simp add: same_function_def dest: arg_cong [where f = nextArg])
    from c2 have top: "\<forall>q. brk m2 \<le> q \<longrightarrow> nodes m2 q = None"
      by (simp add: builder_chain_def)
    from a(2) s2 have brk2: "brk m2 = brk m + ?k" by (simp add: appended_def)
    have restored: "(\<lambda>q. if q \<in> set ?new then None else nodes m2 q) = nodes m"
    proof
      fix q
      show "(if q \<in> set ?new then None else nodes m2 q) = nodes m q"
        using fresh(2) frame top brk2 by (cases "q < brk m") auto
    qed
    have gone: "destroy_FunctionBuilder (b2, m2\<lparr>events := ev'\<rparr>)
        = Some (b2\<lparr>fb_ref := (fb_ref b2)\<lparr>argList := nullptr\<rparr>, curr := nullptr\<rparr>,
                m2\<lparr>nodes := nodes m,
                   events := ev' @ DeinstalledReference # map Deinstalled ?new @ map Reclaimed ?new\<rparr>)"
      for ev'
      using destroy_releases_chain [OF builder_chain_events [OF c2, of ev'] n2] restored by (simp cong: if_cong)
    show ?thesis
    proof (cases res)
      case (Inl p)
      from gone [of "events m2"] have "destroy_FunctionBuilder (b2, m2)
        = Some (b2\<lparr>fb_ref := (fb_ref b2)\<lparr>argList := nullptr\<rparr>, curr := nullptr\<rparr>,
                m2\<lparr>nodes := nodes m,
                   events := events m2 @ DeinstalledReference # map Deinstalled ?new @ map Reclaimed ?new\<rparr>)"
        by simp
      with set a(1) s2 Inl have "buildAndExecuteFunction c x cache e storage function args m
          = Some (Inl p, m2\<lparr>nodes := nodes m,
                   events := events m2 @ DeinstalledReference # map Deinstalled ?new @ map Reclaimed ?new\<rparr>)"
        by (simp add: buildAndExecuteFunction_def)
      then show ?thesis
        by (rule I [where k = ?k and ev = "[]"]) (simp_all add: ev2)
    next
      case (Inr u)
      from invoke_bound_returns [OF c2 set2, of c x] obtain outcome where
        i: "invoke c x (b2, m2) = Some (outcome, b2, m2\<lparr>events := events m2 @ [Evaluated]\<rparr>)"
        by blast
      with set a(1) s2 Inr gone [of "events m2 @ [Evaluated]"]
      have "buildAndExecuteFunction c x cache e storage function args m
          = Some (outcome, m2\<lparr>nodes := nodes m,
                   events := (events m2 @ [Evaluated]) @ DeinstalledReference # map Deinstalled ?new
                      @ map Reclaimed ?new\<rparr>)"
        by (simp add: buildAndExecuteFunction_def)
      then show ?thesis
        by (rule I [where k = ?k and ev = "[Evaluated]"]) (simp_all add: ev2)
    qed
  qed
qed

text \<open>
  Binding a builder again after an argument was added: the engine writes a fresh
  reference, the node of the first binding is no longer reachable from it, and the
  destructor neither deinstalls nor reclaims that node.
\<close>

lemma rebinding_loses_installed_arguments:
  "Option.bind (addArgument sample_clips sample_cache (Int32 7) sample_bound) (\<lambda>(r1, s1).
   Option.bind (setFunctionReference sample_clips ''f'' s1) (\<lambda>(r2, s2).
   map_option (\<lambda>(b, m). (nodes m 1, events m)) (destroy_FunctionBuilder s2)))
     = Some (Some \<lparr>expr_type = INTEGER, expr_value = 207, argList = 0, nextArg = 0\<rparr>,
             [Installed 1, DeinstalledReference])"
proof -
  have z: "install_order h 0 = Some []" "reclaim_order h 0 = Some []" for h
    by (simp_all add: install_order.simps reclaim_order.simps)
  show ?thesis
    unfolding sample_first_argument sample_one_argument_def
    by (simp add: setFunctionReference_def generateFunctionExpression_def sample_clips_def
        c_str_def destroy_FunctionBuilder_def deinstallExpression_def ExpressionDeinstall_def
        reclaimExpressionList_def ReturnExpression_def z)
qed

subsection \<open>The text of a failed call\<close>

lemma render_arg_text:
  "render_arg c x n s
     = \<lparr>str = str s @ '' '' @ arg_text c x (hex s) (expr_type n, expr_value n) @ '' '',
        hex = (hex s \<or> address_like (expr_type n))\<rparr>"
  by (cases "expr_type n")
    (simp_all add: render_arg_def arg_text_def address_like_def invoke_installArgument_def
      invoke_installAddress_def put_string_def put_int_def put_double_def put_pointer_def
      set_hex_def)

lemma fold_render_arg:
  "map (\<lambda>q. map_option (\<lambda>n. (expr_type n, expr_value n)) (h q)) ps = map Some cs \<Longrightarrow>
   fold (\<lambda>q. render_arg c x (the (h q))) ps s
     = \<lparr>str = str s @ chain_text c x (hex s) cs,
        hex = (hex s \<or> (\<exists>tv \<in> set cs. address_like (fst tv)))\<rparr>"
proof (induction ps arbitrary: s cs)
  case Nil
  then show ?case by simp
next
  case (Cons a ps)
  from Cons.prems obtain tv rest where cs: "cs = tv # rest"
    and a: "map_option (\<lambda>n. (expr_type n, expr_value n)) (h a) = Some tv"
    and rest: "map (\<lambda>q. map_option (\<lambda>n. (expr_type n, expr_value n)) (h q)) ps = map Some rest"
    by (cases cs) auto
  from a have tv: "tv = (expr_type (the (h a)), expr_value (the (h a)))"
    by auto
  let ?f = "\<lambda>q. render_arg c x (the (h q))"
  let ?s' = "render_arg c x (the (h a)) s"
  have s': "str ?s' = str s @ '' '' @ arg_text c x (hex s) tv @ '' ''"
    "hex ?s' = (hex s \<or> address_like (fst tv))"
    by (simp_all add: render_arg_text tv)
  have "fold ?f (a # ps) s = fold ?f ps ?s'"
    by simp
  also have "\<dots> = \<lparr>str = str ?s' @ chain_text c x (hex ?s') rest,
        hex = (hex ?s' \<or> (\<exists>tv \<in> set rest. address_like (fst tv)))\<rparr>"
    by (rule Cons.IH [OF rest])
  also have "\<dots> = \<lparr>str = str s @ chain_text c x (hex s) cs,
        hex = (hex s \<or> (\<exists>tv \<in> set cs. address_like (fst tv)))\<rparr>"
    unfolding s' cs by simp
  finally show ?case .
qed

lemma invoke_bound:
  assumes "builder_chain (b, m) ps" and "functionReferenceSet b"
    and "map (node_constant m) ps = map Some cs"
  shows "invoke c x (b, m)
     = Some (if fst (EvaluateExpression c (env (fb_env b)) (nodes m) (fb_ref b))
             then Inl (InvocationError (''('' @ fb_function b @ '' '' @ chain_text c x False cs @ '')''))
             else Inr (snd (EvaluateExpression c (env (fb_env b)) (nodes m) (fb_ref b))),
             b, m\<lparr>events := events m @ [Evaluated]\<rparr>)"
proof -
  from assms(1) have ch: "chain (nodes m) (argList (fb_ref b)) ps"
    by (simp add: builder_chain_def)
  from assms(3)
  have cs: "map (\<lambda>q. map_option (\<lambda>n. (expr_type n, expr_value n)) (nodes m q)) ps = map Some cs"
    by (simp add: node_constant_def [abs_def])
  obtain err ret where e: "EvaluateExpression c (env (fb_env b)) (nodes m) (fb_ref b) = (err, ret)"
    by (cases "EvaluateExpression c (env (fb_env b)) (nodes m) (fb_ref b)")
  let ?start = "put_string '' '' (put_string (fb_function b) (put_string ''('' empty_stream))"
  have start: "str ?start = ''('' @ fb_function b @ '' ''" "hex ?start = False"
    by (simp_all add: put_string_def empty_stream_def)
  have "render_args c x (nodes m) (argList (fb_ref b)) ?start
      = Some (fold (\<lambda>q. render_arg c x (the (nodes m q))) ps ?start)"
    by (rule render_args_chain [OF ch])
  also have "fold (\<lambda>q. render_arg c x (the (nodes m q))) ps ?start
      = \<lparr>str = str ?start @ chain_text c x (hex ?start) cs,
         hex = (hex ?start \<or> (\<exists>tv \<in> set cs. address_like (fst tv)))\<rparr>"
    by (rule fold_render_arg [OF cs])
  finally have r: "render_args c x (nodes m) (argList (fb_ref b)) ?start
      = Some \<lparr>str = (''('' @ fb_function b @ '' '') @ chain_text c x False cs,
               hex = (False \<or> (\<exists>tv \<in> set cs. address_like (fst tv)))\<rparr>"
    by (simp only: start)
  have ev: "evaluateExpression c (fb_env b) (fb_ref b) m = (\<not> err, ret, m\<lparr>events := events m @ [Evaluated]\<rparr>)"
    by (simp add: evaluateExpression_def e)
  have n: "nodes (m\<lparr>events := events m @ [Evaluated]\<rparr>) = nodes m"
    by simp
  show ?thesis
  proof (cases err)
    case True
    with assms(2) show ?thesis
      unfolding invoke_def prod.case ev n r e
      by (simp add: InvocationError_def put_string_def)
  next
    case False
    with assms(2) show ?thesis
      unfolding invoke_def prod.case ev e
      by simp
  qed
qed

lemma chain_text_no_address:
  "\<forall>tv \<in> set cs. \<not> address_like (fst tv) \<Longrightarrow>
   chain_text c x False cs = concat (map (\<lambda>tv. '' '' @ arg_text c x False tv @ '' '') cs)"
  by (induction cs) simp_all

lemma arg_text_not_integer: "t \<noteq> INTEGER \<Longrightarrow> arg_text c x h (t, v) = arg_text c x False (t, v)"
  by (cases t) (simp_all add: arg_text_def)

lemma chain_text_no_integer:
  "\<forall>tv \<in> set cs. fst tv \<noteq> INTEGER \<Longrightarrow>
   chain_text c x h cs = concat (map (\<lambda>tv. '' '' @ arg_text c x False tv @ '' '') cs)"
proof (induction cs arbitrary: h)
  case Nil
  then show ?case by simp
next
  case (Cons tv cs)
  obtain t v where tv: "tv = (t, v)" by (cases tv)
  with Cons.prems have "t \<noteq> INTEGER" by simp
  then have "arg_text c x h tv = arg_text c x False tv"
    unfolding tv by (rule arg_text_not_integer)
  moreover from Cons.prems have "\<forall>tv \<in> set cs. fst tv \<noteq> INTEGER" by simp
  then have "chain_text c x (h \<or> address_like (fst tv)) cs
      = concat (map (\<lambda>tv. '' '' @ arg_text c x False tv @ '' '') cs)"
    by (rule Cons.IH)
  ultimately show ?case by simp
qed

lemma appended_same: "appended s ps cs s' \<Longrightarrow> same_function (fst s) (fst s')"
  by (cases s, cases s') (simp add: appended_def)

text \<open>
  C4 asks for an integer argument to be rendered as its literal numeric form. The
  function \<open>g\<close> is given a host pointer and then the integer 255, and its evaluation
  reports an error: the message renders the integer as \<open>ff\<close>, because the address
  before it left the stream in hexadecimal. The constant is the one the integer 255
  is converted to, and its decimal form is \<open>255\<close>.
\<close>

theorem invoke_renders_integer_in_hexadecimal:
  "Option.bind (addArgument_each sample_clips sample_cache sample_call sample_bound)
      (\<lambda>(r, s). map_option fst (invoke sample_clips sample_cxx s))
     = Some (Inl (Problem ''ERROR: invocation of (g  ExternalAddress<0x19c>  ff ) yielded an error!''))
   \<and> convert sample_clips sample_cache (borrowed 5) (Int32 255) = Some (INTEGER, 455)
   \<and> format_int False (DOPToInteger sample_clips 455) = ''255''"
proof -
  have h1: "builder_chain sample_bound []"
    by (simp add: builder_chain_def sample_bound_def sample_memory_def constants_only_def)
  have h2: "functionReferenceSet (fst sample_bound)"
    by (simp add: sample_bound_def)
  have reg: "sample_cache Widget 5 = Some 3"
    by (simp add: sample_cache_def registerExternalAddressId_def registerExternalAddressId_raw_def
        getRawEnvironment_def emplace_def borrowed_def)
  have e: "fb_env (fst sample_bound) = borrowed 5" "env (borrowed 5) = 5"
    by (simp_all add: sample_bound_def borrowed_def)
  from reg e have h3: "convertible sample_clips sample_cache (fb_env (fst sample_bound))
      (concat (map leaves sample_call))"
    by (simp add: convertible_def sample_call_def)
  from reg e have cs: "map (convert sample_clips sample_cache (fb_env (fst sample_bound)))
      (concat (map leaves sample_call)) = map Some [(EXTERNAL_ADDRESS, 412), (INTEGER, 455)]"
    by (simp add: sample_call_def sample_clips_def)
  have b: "brk (snd sample_bound) = 1"
    by (simp add: sample_bound_def sample_memory_def)
  have u: "[1 ..< 1 + 2] = [1, 2::nat]"
    by (simp add: upt_rec)
  from addArgument_appends_aux(2) [of sample_bound sample_clips sample_cache sample_call] h1 h2 h3
  obtain s' where
    s': "addArgument_each sample_clips sample_cache sample_call sample_bound = Some (Inr (), s')"
    "appended sample_bound [] (map (convert sample_clips sample_cache (fb_env (fst sample_bound)))
      (concat (map leaves sample_call))) s'"
    by blast
  obtain b' m' where bm: "s' = (b', m')" by (cases s')
  have "length (map Some [(EXTERNAL_ADDRESS, 412), (INTEGER, 455::addr)]) = 2"
    by simp
  with appended_result [OF s'(2)]
  have "builder_chain s' ([] @ [1 ..< 1 + 2])
      \<and> map (node_constant (snd s')) [1 ..< 1 + 2] = map Some [(EXTERNAL_ADDRESS, 412), (INTEGER, 455)]"
    by (simp only: cs b)
  then have c: "builder_chain (b', m') [1, 2]"
    "map (node_constant m') [1, 2] = map Some [(EXTERNAL_ADDRESS, 412), (INTEGER, 455)]"
    by (simp_all only: u append_Nil bm snd_conv)
  from appended_same [OF s'(2)] have sf: "same_function (fst sample_bound) b'"
    by (simp add: bm)
  then have "(fb_ref b')\<lparr>argList := nullptr\<rparr> = (fb_ref (fst sample_bound))\<lparr>argList := nullptr\<rparr>"
    by (simp add: same_function_def)
  then have "expr_value ((fb_ref b')\<lparr>argList := nullptr\<rparr>)
      = expr_value ((fb_ref (fst sample_bound))\<lparr>argList := nullptr\<rparr>)"
    by (rule arg_cong)
  then have v: "expr_value (fb_ref b') = 51"
    by (simp add: sample_bound_def)
  from sf have f: "functionReferenceSet b'" "fb_function b' = ''g''" "fb_env b' = borrowed 5"
    by (simp_all add: same_function_def sample_bound_def)
  have t: "chain_text sample_clips sample_cxx False [(EXTERNAL_ADDRESS, 412), (INTEGER, 455)]
      = '' ExternalAddress<0x19c>  ff ''"
    by (simp add: arg_text_def address_like_def sample_cxx_def sample_clips_def format_int_def
        hex_digits.simps)
  from v have err: "fst (EvaluateExpression sample_clips (env (fb_env b')) (nodes m') (fb_ref b'))"
    by (simp add: sample_clips_def)
  from invoke_bound [OF c(1) f(1) c(2), of sample_clips sample_cxx] err f(2) t
  have "map_option fst (invoke sample_clips sample_cxx (b', m'))
      = Some (Inl (Problem ''ERROR: invocation of (g  ExternalAddress<0x19c>  ff ) yielded an error!''))"
    by (simp add: InvocationError_def)
  with s'(1) bm have 1: "Option.bind (addArgument_each sample_clips sample_cache sample_call sample_bound)
      (\<lambda>(r, s). map_option fst (invoke sample_clips sample_cxx s))
     = Some (Inl (Problem ''ERROR: invocation of (g  ExternalAddress<0x19c>  ff ) yielded an error!''))"
    by simp
  have 2: "convert sample_clips sample_cache (borrowed 5) (Int32 255) = Some (INTEGER, 455)"
    by (simp add: sample_clips_def borrowed_def)
  have 3: "format_int False (DOPToInteger sample_clips 455) = ''255''"
    by (simp add: format_int_def sample_clips_def dec_digits.simps)
  from 1 2 3 show ?thesis by (intro conjI)
qed

end
